theory Spec2Isabelle
  imports Main "HOL-Library.AList" "HOL-Library.Multiset" "HOL-Library.Sublist"
begin

chapter \<open>The model\<close>

section \<open>JavaScript values\<close>

text \<open>
  The scripts are TypeScript; at run time the quiz metadata are plain JavaScript objects
  read from YAML, and the code relies on JavaScript's truthiness (\<open>a || b\<close>,
  \<open>!x\<close>), on \<open>typeof\<close> and on optional chaining. The values are therefore a
  datatype of their own. An object is the association list of its own enumerable
  properties, in insertion order; reading a property that is not there gives
  \<open>undefined\<close>. Property names are taken to be ordinary names (locale codes, field
  names, file names), not names that an object inherits from \<open>Object.prototype\<close>.
\<close>

datatype jsval =
    JUndefined
  | JNull
  | JBool bool
  | JNum int
  | JStr string
  | JArr "jsval list"
  | JObj "(string \<times> jsval) list"

type_synonym jsobj = "(string \<times> jsval) list"

fun truthy :: "jsval \<Rightarrow> bool" where
  "truthy JUndefined = False"
| "truthy JNull = False"
| "truthy (JBool b) = b"
| "truthy (JNum n) = (n \<noteq> 0)"
| "truthy (JStr s) = (s \<noteq> [])"
| "truthy (JArr xs) = True"
| "truthy (JObj ps) = True"

definition js_or :: "jsval \<Rightarrow> jsval \<Rightarrow> jsval" where
  \<comment> \<open>\<open>a || b\<close>\<close>
  "js_or a b = (if truthy a then a else b)"

definition get_prop :: "jsobj \<Rightarrow> string \<Rightarrow> jsval" where
  \<comment> \<open>\<open>obj[key]\<close>\<close>
  "get_prop obj key = (case map_of obj key of None \<Rightarrow> JUndefined | Some v \<Rightarrow> v)"

definition opt_get :: "jsobj option \<Rightarrow> string \<Rightarrow> jsval" where
  \<comment> \<open>\<open>obj?.key\<close>, where \<open>None\<close> is an \<open>undefined\<close> object\<close>
  "opt_get obj key = (case obj of None \<Rightarrow> JUndefined | Some ob \<Rightarrow> get_prop ob key)"

definition set_prop :: "string \<Rightarrow> jsval \<Rightarrow> jsobj \<Rightarrow> jsobj" where
  \<comment> \<open>\<open>obj[key] = v\<close>: an existing property keeps its place, a new one is appended\<close>
  "set_prop key v obj = AList.update key v obj"

definition Object_assign :: "jsobj \<Rightarrow> jsobj option \<Rightarrow> jsobj" where
  \<comment> \<open>\<open>Object.assign(target, source)\<close>; an \<open>undefined\<close> source is skipped\<close>
  "Object_assign target source =
     (case source of
        None \<Rightarrow> target
      | Some src \<Rightarrow> fold (\<lambda>(k, v) acc. set_prop k v acc) src target)"

subsection \<open>Strings\<close>

text \<open>
  A string is the list of the bytes of its UTF-8 encoding. \<open>s.split(',')\<close> always
  returns at least one piece. \<open>trim\<close> removes, at both ends, every white space
  character and line terminator of ECMAScript: the ASCII ones, U+00A0, U+1680, U+2000 to
  U+200A, U+2028, U+2029, U+202F, U+205F, U+3000 and U+FEFF, each as the bytes that
  encode it.
\<close>

fun split_on :: "char \<Rightarrow> string \<Rightarrow> string list" where
  "split_on sep [] = [[]]"
| "split_on sep (c # cs) =
     (if c = sep then [] # split_on sep cs
      else (case split_on sep cs of
              [] \<Rightarrow> [[c]]
            | w # ws \<Rightarrow> (c # w) # ws))"

definition white_space :: "string list" where
  "white_space =
     [[CHR 0x09], [CHR 0x0A], [CHR 0x0B], [CHR 0x0C], [CHR 0x0D], [CHR 0x20],
      [CHR 0xC2, CHR 0xA0], [CHR 0xE1, CHR 0x9A, CHR 0x80]]
     @ map (\<lambda>b. [CHR 0xE2, CHR 0x80, b])
         [CHR 0x80, CHR 0x81, CHR 0x82, CHR 0x83, CHR 0x84, CHR 0x85, CHR 0x86, CHR 0x87,
          CHR 0x88, CHR 0x89, CHR 0x8A, CHR 0xA8, CHR 0xA9, CHR 0xAF]
     @ [[CHR 0xE2, CHR 0x81, CHR 0x9F], [CHR 0xE3, CHR 0x80, CHR 0x80],
        [CHR 0xEF, CHR 0xBB, CHR 0xBF]]"

function strip_leading :: "string list \<Rightarrow> string \<Rightarrow> string" where
  "strip_leading ws s =
     (case find (\<lambda>w. w \<noteq> [] \<and> prefix w s) ws of
        None \<Rightarrow> s
      | Some w \<Rightarrow> strip_leading ws (drop (length w) s))"
  by pat_completeness auto
termination
  by (relation "measure (\<lambda>(ws, s). length s)") (auto simp: find_Some_iff prefix_def)

declare strip_leading.simps [simp del]

definition trim :: "string \<Rightarrow> string" where
  "trim s = rev (strip_leading (map rev white_space) (rev (strip_leading white_space s)))"

definition is_digit :: "char \<Rightarrow> bool" where
  \<comment> \<open>\<open>\d\<close>\<close>
  "is_digit c = (c \<in> set ''0123456789'')"

definition is_line_terminator :: "char \<Rightarrow> bool" where
  \<comment> \<open>what \<open>.\<close> does not match, in a folder name of ASCII characters\<close>
  "is_line_terminator c = (c = CHR 0x0A \<or> c = CHR 0x0D)"

section \<open>The quiz corpus: \<open>scripts/types.ts\<close> and \<open>scripts/loader.ts\<close>\<close>

text \<open>
  \<open>Quiz\<close> of \<open>types.ts\<close>. The field \<open>difficulty\<close> is declared with the type
  \<open>Difficulty\<close>, but \<open>loadQuiz\<close> stores whatever text it cuts out of the folder name
  (the cast \<open>as any\<close>), so the field holds a string. \<open>no\<close> is what JavaScript's
  \<open>Number\<close> makes of a string; \<open>Number\<close> is a parameter of the model.
  \<open>info\<close> and \<open>readme\<close> are records keyed by locale. The optional field
  \<open>solutions\<close>, which \<open>loadQuiz\<close> does not set, is left out.
\<close>

record 'n Quiz =
  no :: 'n
  difficulty :: string
  path :: string
  info :: "(string \<times> jsobj) list"
  readme :: "(string \<times> string) list"
  template :: string
  tests :: "string option"

definition Difficulty :: "string list" where
  \<comment> \<open>the values of the type \<open>Difficulty\<close>\<close>
  "Difficulty = [''warm'', ''easy'', ''medium'', ''hard'', ''extreme'', ''pending'']"

datatype error =
    ENOENT
  | ENOTDIR
  | EISDIR
  | TypeError
  | LoadError string

text \<open>
  \<open>dir.replace(/^(\d+)-.*/, '$1')\<close>: the pattern matches when the name starts with
  digits followed by a dash; the match runs to the end of the line and is replaced by
  the digits. A name that does not match is returned as it is.
\<close>

definition replace_no :: "string \<Rightarrow> string" where
  "replace_no dir =
     (let digits = takeWhile is_digit dir; rest = dropWhile is_digit dir
      in case rest of
           [] \<Rightarrow> dir
         | c # cs \<Rightarrow>
             if digits \<noteq> [] \<and> c = CHR ''-''
             then digits @ dropWhile (\<lambda>x. \<not> is_line_terminator x) cs
             else dir)"

text \<open>
  \<open>dir.replace(/^\d+-(.+?)-.*$/, '$1')\<close>: the pattern is anchored at both ends, so a
  match covers the whole name and the result is the first group. The name must be
  digits, a dash, and then text without a line terminator that has a dash after its
  first character; the lazy group \<open>(.+?)\<close> takes the first character and all that
  follows up to the next dash. A name that does not match is returned as it is.
\<close>

definition replace_difficulty :: "string \<Rightarrow> string" where
  "replace_difficulty dir =
     (let digits = takeWhile is_digit dir; rest = dropWhile is_digit dir
      in case rest of
           c # x # xs \<Rightarrow>
             if digits \<noteq> [] \<and> c = CHR ''-''
                \<and> \<not> (\<exists>y \<in> set (x # xs). is_line_terminator y)
                \<and> CHR ''-'' \<in> set xs
             then x # takeWhile (\<lambda>y. y \<noteq> CHR ''-'') xs
             else dir
         | _ \<Rightarrow> dir)"

text \<open>
  \<open>loadQuiz\<close>. The four awaited loads are inputs of the model, each either the loaded
  value or the error it was rejected with; the object literal awaits them in the order
  \<open>info\<close>, \<open>readme\<close>, \<open>template\<close>, \<open>tests\<close>, and the \<open>catch\<close> block logs the
  error and throws it again. \<open>template\<close> is \<open>(await loadFile(...)) || ''\<close>.
\<close>

definition loadQuiz ::
  "(string \<Rightarrow> 'n) \<Rightarrow> string
    \<Rightarrow> error + (string \<times> jsobj) list
    \<Rightarrow> error + (string \<times> string) list
    \<Rightarrow> error + string option
    \<Rightarrow> error + string option
    \<Rightarrow> error + 'n Quiz" where
  "loadQuiz Number dir info_loaded readme_loaded template_loaded tests_loaded =
     (case info_loaded of
        Inl e \<Rightarrow> Inl e
      | Inr i \<Rightarrow>
     (case readme_loaded of
        Inl e \<Rightarrow> Inl e
      | Inr r \<Rightarrow>
     (case template_loaded of
        Inl e \<Rightarrow> Inl e
      | Inr t \<Rightarrow>
     (case tests_loaded of
        Inl e \<Rightarrow> Inl e
      | Inr ts \<Rightarrow>
          Inr \<lparr> no = Number (replace_no dir),
                difficulty = replace_difficulty dir,
                path = dir,
                info = i,
                readme = r,
                template = (case t of None \<Rightarrow> [] | Some s \<Rightarrow> if s = [] then [] else s),
                tests = ts \<rparr>))))"

text \<open>
  \<open>loadInfo\<close>. \<open>YAML.load\<close> is a parameter; a metadata file is a YAML mapping, so
  the parser either throws (\<open>Inl\<close>), or returns nothing for an empty document, or
  returns an object. \<open>toString\<close> is JavaScript's conversion of a value to a string.
  Every error is caught and gives \<open>undefined\<close> (\<open>None\<close>). The loop over
  \<open>arrayKeys\<close> replaces \<open>tags\<close> and \<open>related\<close> by the list of the trimmed,
  non-empty pieces between commas, or by \<open>undefined\<close> when the value is falsy.
\<close>

definition loadInfo_arrayKey :: "(jsval \<Rightarrow> string) \<Rightarrow> string \<Rightarrow> jsobj \<Rightarrow> jsobj" where
  "loadInfo_arrayKey toString key object =
     (if truthy (get_prop object key)
      then set_prop key
             (JArr (map JStr (filter (\<lambda>i. i \<noteq> [])
                      (map trim (split_on CHR '',''
                         (toString (js_or (get_prop object key) (JStr []))))))))
             object
      else set_prop key JUndefined object)"

definition loadInfo ::
  "(string \<Rightarrow> error + jsobj option) \<Rightarrow> (jsval \<Rightarrow> string) \<Rightarrow> string \<Rightarrow> jsobj option" where
  "loadInfo YAML_load toString s =
     (case YAML_load s of
        Inl e \<Rightarrow> None
      | Inr None \<Rightarrow> None
      | Inr (Some object) \<Rightarrow>
          Some (fold (loadInfo_arrayKey toString) [''tags'', ''related''] object))"

text \<open>
  \<open>resolveInfo\<close>. \<open>defaultLocale\<close> comes from \<open>scripts/locales\<close>, which is not part
  of the sources at hand, and is a parameter. The caller passes a locale; the default
  value of the parameter \<open>locale\<close> is not modelled.
\<close>

definition resolveInfo :: "string \<Rightarrow> 'n Quiz \<Rightarrow> string \<Rightarrow> jsobj" where
  "resolveInfo defaultLocale quiz locale =
     (let info0 = Object_assign (Object_assign [] (map_of (info quiz) defaultLocale))
                    (map_of (info quiz) locale);
          info1 = set_prop ''tags''
                    (js_or (js_or (opt_get (map_of (info quiz) locale) ''tags'')
                                  (opt_get (map_of (info quiz) defaultLocale) ''tags''))
                           (JArr []))
                    info0;
          info2 = set_prop ''related''
                    (js_or (js_or (opt_get (map_of (info quiz) locale) ''related'')
                                  (opt_get (map_of (info quiz) defaultLocale) ''related''))
                           (JArr []))
                    info1
      in case get_prop info2 ''tags'' of
           JStr s \<Rightarrow>
             set_prop ''tags''
               (JArr (map JStr (filter (\<lambda>i. i \<noteq> []) (map trim (split_on CHR '','' s)))))
               info2
         | _ \<Rightarrow> info2)"

text \<open>
  \<open>QuizMetaInfo\<close> declares \<open>tags: string[]\<close> and \<open>related?: string[]\<close>, and
  \<open>loadInfo\<close> stores under both keys either an array or \<open>undefined\<close>. This is the
  shape of the metadata that \<open>resolveInfo\<close> is given; an object has each of its
  properties once. \<open>typed_meta\<close> is the shape of one locale's metadata,
  \<open>typed_info\<close> says that every locale of a quiz has it.
\<close>

definition list_or_undefined :: "jsval \<Rightarrow> bool" where
  "list_or_undefined v = (case v of JUndefined \<Rightarrow> True | JArr xs \<Rightarrow> True | _ \<Rightarrow> False)"

definition typed_meta :: "jsobj \<Rightarrow> bool" where
  "typed_meta meta =
     (distinct (map fst meta)
      \<and> list_or_undefined (get_prop meta ''tags'')
      \<and> list_or_undefined (get_prop meta ''related''))"

definition typed_info :: "'n Quiz \<Rightarrow> bool" where
  "typed_info quiz = list_all (\<lambda>(l, meta). typed_meta meta) (info quiz)"

section \<open>Generated regions: \<open>scripts/readme.ts\<close>\<close>

subsection \<open>Regular expressions over marker pairs\<close>

text \<open>
  \<open>insertInfoReadme\<close> uses two regular expressions of one form,
  \<open>/<start>[\s\S]*<end>/\<close>, each to test a text and to replace the first match.
  A match begins at the first occurrence of the start marker that has an end marker
  somewhere after it, which is the first occurrence of the start marker if there is a
  match at all; \<open>[\s\S]*\<close> is greedy, so the match ends with the last occurrence of
  the end marker. \<open>split_first\<close> cuts a text at the first occurrence of a pattern,
  \<open>split_last\<close> at the last one.
\<close>

definition info_header_start :: string where
  "info_header_start = ''<!--info-header-start-->''"

definition info_header_end :: string where
  "info_header_end = ''<!--info-header-end-->''"

definition info_footer_start :: string where
  "info_footer_start = ''<!--info-footer-start-->''"

definition info_footer_end :: string where
  "info_footer_end = ''<!--info-footer-end-->''"

fun split_first :: "string \<Rightarrow> string \<Rightarrow> (string \<times> string) option" where
  "split_first pat [] = (if pat = [] then Some ([], []) else None)"
| "split_first pat (c # cs) =
     (if prefix pat (c # cs) then Some ([], drop (length pat) (c # cs))
      else map_option (\<lambda>(before, after). (c # before, after)) (split_first pat cs))"

definition split_last :: "string \<Rightarrow> string \<Rightarrow> (string \<times> string) option" where
  "split_last pat s =
     map_option (\<lambda>(after, before). (rev before, rev after)) (split_first (rev pat) (rev s))"

definition contains :: "string \<Rightarrow> string \<Rightarrow> bool" where
  "contains pat s = (split_first pat s \<noteq> None)"

text \<open>
  The match of \<open>/<start>[\s\S]*<end>/\<close> in a text, as the text before the match, the
  text between the two markers and the text after the match; \<open>None\<close> is
  \<open>text.match(...) === null\<close>.
\<close>

definition match_region :: "string \<Rightarrow> string \<Rightarrow> string \<Rightarrow> (string \<times> string \<times> string) option" where
  "match_region start_marker end_marker text =
     (case split_first start_marker text of
        None \<Rightarrow> None
      | Some (before, rest) \<Rightarrow>
          (case split_last end_marker rest of
             None \<Rightarrow> None
           | Some (inner, after) \<Rightarrow> Some (before, inner, after)))"

text \<open>
  \<open>text.replace(regexp, replacement)\<close> with a string as the replacement expands the
  patterns \<open>$$\<close>, \<open>$&\<close>, \<open>$`\<close> and \<open>$'\<close> in it (a dollar sign, the match, the text
  before the match, the text after it). The expressions have no groups, so \<open>$1\<close> and
  \<open>$<name>\<close> stay as they are. Without the flag \<open>g\<close> only the first match is
  replaced, and a text without a match is returned unchanged.
\<close>

fun substitute :: "string \<Rightarrow> string \<Rightarrow> string \<Rightarrow> string \<Rightarrow> string" where
  "substitute [] matched before after = []"
| "substitute [c] matched before after = [c]"
| "substitute (c # d # r) matched before after =
     (if c = CHR ''$'' \<and> d = CHR ''$'' then CHR ''$'' # substitute r matched before after
      else if c = CHR ''$'' \<and> d = CHR ''&'' then matched @ substitute r matched before after
      else if c = CHR ''$'' \<and> d = CHR 0x60 then before @ substitute r matched before after
      else if c = CHR ''$'' \<and> d = CHR 0x27 then after @ substitute r matched before after
      else c # substitute (d # r) matched before after)"

definition replace_region :: "string \<Rightarrow> string \<Rightarrow> string \<Rightarrow> string \<Rightarrow> string" where
  "replace_region start_marker end_marker replacement text =
     (case match_region start_marker end_marker text of
        None \<Rightarrow> text
      | Some (before, inner, after) \<Rightarrow>
          before
          @ substitute replacement (start_marker @ inner @ end_marker) before after
          @ after)"

subsection \<open>\<open>insertInfoReadme\<close>\<close>



text \<open>
  The statements of \<open>insertInfoReadme\<close> that rewrite the text, for the two generated
  fragments \<open>header\<close> and \<open>footer\<close> as they stand between the markers in the two
  replacement strings. A missing marker pair is inserted first: the header pair and
  two newlines in front of the text, two newlines and the footer pair behind it.
\<close>

definition insertInfoReadme_text :: "string \<Rightarrow> string \<Rightarrow> string \<Rightarrow> string" where
  "insertInfoReadme_text text header footer =
     (let text1 = (if match_region info_header_start info_header_end text = None
                   then info_header_start @ info_header_end @ [CHR 0x0A, CHR 0x0A] @ text
                   else text);
          text2 = (if match_region info_footer_start info_footer_end text1 = None
                   then text1 @ [CHR 0x0A, CHR 0x0A] @ info_footer_start @ info_footer_end
                   else text1)
      in replace_region info_footer_start info_footer_end
           (info_footer_start @ footer @ info_footer_end)
           (replace_region info_header_start info_header_end
              (info_header_start @ header @ info_header_end) text2))"



text \<open>
  Two conditions on a text. In a text where the \<^emph>\<open>footer follows the header\<close>, no footer
  start marker stands before the last header end marker. A \<^emph>\<open>settled\<close> text has the
  generated header between the first header start marker and the last header end
  marker, and behind them the generated footer between the first footer start marker
  and the last footer end marker.
\<close>

definition footer_follows_header :: "string \<Rightarrow> bool" where
  "footer_follows_header text =
     (case split_last info_header_end text of
        None \<Rightarrow> True
      | Some (before, after) \<Rightarrow> \<not> contains info_footer_start before)"

definition settled :: "string \<Rightarrow> string \<Rightarrow> string \<Rightarrow> bool" where
  "settled header footer text =
     (\<exists>P Q1 Q2.
        text = P @ info_header_start @ header @ info_header_end
                 @ Q1 @ info_footer_start @ footer @ info_footer_end @ Q2
        \<and> \<not> sublist info_header_start P \<and> \<not> sublist info_footer_start P
        \<and> \<not> sublist info_header_end Q1 \<and> \<not> sublist info_footer_start Q1
        \<and> \<not> sublist info_header_end Q2 \<and> \<not> sublist info_footer_end Q2)"

definition marker :: "string \<Rightarrow> bool" where
  "marker p = (\<exists>r. p = CHR ''<'' # r @ [CHR ''>''] \<and> CHR ''<'' \<notin> set r \<and> CHR ''>'' \<notin> set r)"

subsection \<open>The index\<close>

text \<open>
  \<open>updateIndexREADME\<close> (line 160) sorts a copy of the quizzes with the comparator
  \<open>DifficultyRank.indexOf(a.difficulty) - DifficultyRank.indexOf(b.difficulty)\<close>.
  \<open>indexOf\<close> is \<open>-1\<close> for a value that is not in the array.
  \<open>Array.prototype.sort\<close> is stable, and this comparator is a consistent one (the
  difference of two keys), so the result is the stable sort by the comparator whatever
  algorithm the engine runs; the model inserts the elements one by one, from the last
  to the first, each in front of the first element that does not compare smaller.
\<close>

definition DifficultyRank :: "string list" where
  "DifficultyRank = [''warm'', ''easy'', ''medium'', ''hard'', ''extreme'']"

fun indexOf :: "'a list \<Rightarrow> 'a \<Rightarrow> int" where
  "indexOf [] x = - 1"
| "indexOf (y # ys) x =
     (if y = x then 0 else (let i = indexOf ys x in if i < 0 then - 1 else i + 1))"

fun sort_insert :: "('a \<Rightarrow> 'a \<Rightarrow> int) \<Rightarrow> 'a \<Rightarrow> 'a list \<Rightarrow> 'a list" where
  "sort_insert compareFn x [] = [x]"
| "sort_insert compareFn x (y # ys) =
     (if compareFn x y \<le> 0 then x # y # ys else y # sort_insert compareFn x ys)"

definition array_sort :: "('a \<Rightarrow> 'a \<Rightarrow> int) \<Rightarrow> 'a list \<Rightarrow> 'a list" where
  "array_sort compareFn xs = foldr (sort_insert compareFn) xs []"

definition quizesByDifficulty :: "'n Quiz list \<Rightarrow> 'n Quiz list" where
  "quizesByDifficulty quizes =
     array_sort (\<lambda>a b. indexOf DifficultyRank (difficulty a)
                        - indexOf DifficultyRank (difficulty b)) quizes"

section \<open>The playground generator\<close>

text \<open>
  The script that generates the local playground (the source file without a name,
  whose last line calls \<open>generatePlayground\<close>).
\<close>

subsection \<open>Snapshots\<close>

text \<open>
  \<open>Snapshot = Record<string, string>\<close>: an object from file names to fingerprints, as
  an association list. \<open>snapshot[key]\<close> is \<open>undefined\<close> (\<open>None\<close>) for a key that is
  not there; in a condition, \<open>undefined\<close> and the empty string count as false.
  \<open>{...a, ...b}\<close> copies \<open>a\<close> and then stores the properties of \<open>b\<close>.
\<close>

type_synonym Snapshot = "(string \<times> string) list"

definition snapshot_get :: "Snapshot \<Rightarrow> string \<Rightarrow> string option" where
  "snapshot_get snapshot key = map_of snapshot key"

definition snapshot_set :: "string \<Rightarrow> string \<Rightarrow> Snapshot \<Rightarrow> Snapshot" where
  "snapshot_set key v snapshot = AList.update key v snapshot"

definition spread :: "Snapshot \<Rightarrow> Snapshot \<Rightarrow> Snapshot" where
  "spread a b = fold (\<lambda>(k, v) acc. snapshot_set k v acc) b a"

definition truthy_entry :: "string option \<Rightarrow> bool" where
  "truthy_entry v = (case v of None \<Rightarrow> False | Some s \<Rightarrow> s \<noteq> [])"

subsection \<open>The file system\<close>

text \<open>
  A directory tree: a file with its content, or a directory with its entries in the
  order in which \<open>readdirSync\<close> lists them. \<open>path.join\<close> is applied to a directory
  and the name of an entry, a single path component. Reading a file that was just
  listed or just written succeeds; the model has no input/output faults.
\<close>

datatype node = File string | Dir "(string \<times> node) list"

definition path_join :: "string \<Rightarrow> string \<Rightarrow> string" where
  "path_join dir name = dir @ ''/'' @ name"

definition readdirSync :: "node option \<Rightarrow> error + (string \<times> node) list" where
  "readdirSync n =
     (case n of
        None \<Rightarrow> Inl ENOENT
      | Some (File content) \<Rightarrow> Inl ENOTDIR
      | Some (Dir files) \<Rightarrow> Inr files)"

fun lookup_path :: "node \<Rightarrow> string list \<Rightarrow> node option" where
  "lookup_path n [] = Some n"
| "lookup_path n (name # names) =
     (case n of
        File content \<Rightarrow> None
      | Dir files \<Rightarrow>
          (case map_of files name of
             None \<Rightarrow> None
           | Some m \<Rightarrow> lookup_path m names))"

subsection \<open>Fingerprints\<close>

text \<open>
  \<open>calculateFileHash\<close> feeds a SHA-1 hash with the content of the file and then with
  the path it was called with, and returns the digest in hexadecimal. The digest
  function \<open>sha1\<close>, from a byte string to its hexadecimal digest, is a parameter.
\<close>

definition calculateFileHash :: "(string \<Rightarrow> string) \<Rightarrow> string \<Rightarrow> string \<Rightarrow> string" where
  "calculateFileHash sha1 filePathFull content = sha1 (content @ filePathFull)"

text \<open>
  \<open>takeSnapshot\<close>: the loop over the entries of a directory, with the snapshot built so
  far; a subdirectory is snapshotted by the recursive call and spread over the
  snapshot, a file is stored under its bare name.
\<close>

fun takeSnapshot_files ::
  "(string \<Rightarrow> string) \<Rightarrow> string \<Rightarrow> (string \<times> node) list \<Rightarrow> Snapshot \<Rightarrow> Snapshot" where
  "takeSnapshot_files sha1 quizesPath [] snapshot = snapshot"
| "takeSnapshot_files sha1 quizesPath ((file, File content) # files) snapshot =
     takeSnapshot_files sha1 quizesPath files
       (snapshot_set file (calculateFileHash sha1 (path_join quizesPath file) content) snapshot)"
| "takeSnapshot_files sha1 quizesPath ((file, Dir sub) # files) snapshot =
     takeSnapshot_files sha1 quizesPath files
       (spread snapshot (takeSnapshot_files sha1 (path_join quizesPath file) sub []))"

definition takeSnapshot :: "(string \<Rightarrow> string) \<Rightarrow> string \<Rightarrow> (string \<times> node) list \<Rightarrow> Snapshot" where
  "takeSnapshot sha1 quizesPath files = takeSnapshot_files sha1 quizesPath files []"

text \<open>
  The files of a directory tree in the order in which \<open>takeSnapshot\<close> visits them, each
  with its bare name, the path it is hashed with and its content.
\<close>

fun visited :: "string \<Rightarrow> (string \<times> node) list \<Rightarrow> (string \<times> string \<times> string) list" where
  "visited quizesPath [] = []"
| "visited quizesPath ((file, File content) # files) =
     (file, path_join quizesPath file, content) # visited quizesPath files"
| "visited quizesPath ((file, Dir sub) # files) =
     visited (path_join quizesPath file) sub @ visited quizesPath files"

text \<open>
  A listing as a file system gives it: no name holds a slash, and a directory has
  every name once.
\<close>

fun wf_entries :: "(string \<times> node) list \<Rightarrow> bool" where
  "wf_entries [] = True"
| "wf_entries ((file, File content) # files) =
     (CHR ''/'' \<notin> set file \<and> file \<notin> fst ` set files \<and> wf_entries files)"
| "wf_entries ((file, Dir sub) # files) =
     (CHR ''/'' \<notin> set file \<and> file \<notin> fst ` set files \<and> wf_entries sub \<and> wf_entries files)"

subsection \<open>The cache and the files that may be overridden\<close>

datatype outcome = Generated | Skipped | Exit nat | Rejected error

text \<open>
  \<open>readPlaygroundCache\<close>. \<open>JSON.parse\<close> is a parameter: \<open>None\<close> when it throws,
  otherwise the snapshot that the text denotes. Reading a directory throws as well;
  every error inside the \<open>try\<close> block ends the process with \<open>process.exit(1)\<close>.
\<close>

definition readPlaygroundCache :: "(string \<Rightarrow> Snapshot option) \<Rightarrow> node option \<Rightarrow> outcome + Snapshot" where
  "readPlaygroundCache JSON_parse playgroundCache =
     (case playgroundCache of
        None \<Rightarrow> Inr []
      | Some (Dir files) \<Rightarrow> Inl (Exit 1)
      | Some (File rawCacheContent) \<Rightarrow>
          (case JSON_parse rawCacheContent of
             None \<Rightarrow> Inl (Exit 1)
           | Some cache \<Rightarrow> Inr cache))"

definition calculateOverridableFiles :: "Snapshot \<Rightarrow> Snapshot \<Rightarrow> Snapshot" where
  "calculateOverridableFiles cache snapshot =
     fold (\<lambda>quizName result.
             case snapshot_get snapshot quizName of
               None \<Rightarrow> result
             | Some h \<Rightarrow>
                 if Some h = snapshot_get cache quizName
                 then snapshot_set quizName h result
                 else result)
       (map fst snapshot) []"

definition isQuizWritable :: "string \<Rightarrow> Snapshot \<Rightarrow> Snapshot \<Rightarrow> bool" where
  "isQuizWritable quizFileName overridableFiles playgroundSnapshot =
     (truthy_entry (snapshot_get overridableFiles quizFileName)
      \<or> (\<not> truthy_entry (snapshot_get overridableFiles quizFileName)
          \<and> \<not> truthy_entry (snapshot_get playgroundSnapshot quizFileName)))"

subsection \<open>\<open>generatePlayground\<close>\<close>

text \<open>
  What the script takes from outside: the digest, the JSON functions, the locales of
  \<open>scripts/locales\<close>, \<open>formatToCode\<close>, \<open>getQuestionFullName\<close> and the path of the
  playground. The answers of the user to the two prompts are inputs as well, and so
  is the outcome of \<open>await loadQuizes()\<close>: \<open>Inl\<close> the error that the call throws,
  \<open>Inr\<close> the quizzes that it returns.

  As the sources stand, the script imports \<open>loadQuizes\<close> and \<open>resolveInfo\<close> by name
  from \<open>./loader\<close>, and \<open>loader.ts\<close> has a default export only: both names are
  undefined, and \<open>await loadQuizes()\<close> throws a \<open>TypeError\<close>.
  \<open>imported_loadQuizes\<close> is this outcome. With \<open>Inr\<close> the model runs the loop as the
  script would with the two functions of \<open>loader.ts\<close> bound to the two names.
\<close>

definition imported_loadQuizes :: "error + 'n Quiz list" where
  "imported_loadQuizes = Inl TypeError"

record 'n env =
  env_sha1 :: "string \<Rightarrow> string"
  env_JSON_parse :: "string \<Rightarrow> Snapshot option"
  env_JSON_stringify :: "Snapshot \<Rightarrow> string"
  env_supportedLocales :: "string list"
  env_defaultLocale :: string
  env_formatToCode :: "'n Quiz \<Rightarrow> string \<Rightarrow> string"
  env_getQuestionFullName :: "'n \<Rightarrow> string \<Rightarrow> jsval \<Rightarrow> string"
  env_playgroundPath :: string

record answers =
  confirm :: bool
  chosen_locale :: string

text \<open>
  The state of the file system that the script reads and writes: the playground
  directory and the cache file beside it.
\<close>

record world =
  playground :: "node option"
  playgroundcache :: "node option"

definition argv_at :: "string list \<Rightarrow> nat \<Rightarrow> string option" where
  "argv_at argv i = (if i < length argv then Some (argv ! i) else None)"

definition keep_changes_requested :: "string list \<Rightarrow> bool" where
  "keep_changes_requested argv =
     (length argv = 3
      \<and> (argv_at argv 2 = Some ''--keep-changes'' \<or> argv_at argv 2 = Some ''-K''))"

definition choose_locale :: "'n env \<Rightarrow> string list \<Rightarrow> answers \<Rightarrow> string" where
  "choose_locale env argv ans =
     (case find (\<lambda>l. Some l = argv_at argv 2) (env_supportedLocales env) of
        None \<Rightarrow> chosen_locale ans
      | Some l \<Rightarrow> if l = [] then chosen_locale ans else l)"

text \<open>
  The file of a quiz: the subdirectory named after the resolved difficulty and the
  file name. A quiz without a resolved difficulty or title has none and is skipped;
  \<open>path.join\<close> throws a \<open>TypeError\<close> for a difficulty that is not a string.
\<close>

definition quiz_target :: "'n env \<Rightarrow> string \<Rightarrow> 'n Quiz \<Rightarrow> error + (string \<times> string) option" where
  "quiz_target env locale quiz =
     (let resolved = resolveInfo (env_defaultLocale env) quiz locale;
          the_difficulty = get_prop resolved ''difficulty'';
          the_title = get_prop resolved ''title''
      in if the_difficulty = JUndefined \<or> the_title = JUndefined then Inr None
         else (case the_difficulty of
                 JStr d \<Rightarrow>
                   Inr (Some (d, env_getQuestionFullName env (no quiz) d the_title @ ''.ts''))
               | _ \<Rightarrow> Inl TypeError))"

text \<open>
  Writing the file of a quiz into the playground, whose entries are \<open>files\<close>: the
  subdirectory is made when it does not exist (\<open>existsSync\<close>, \<open>mkdirSync\<close>), and
  \<open>writeFile\<close> replaces the file or adds it. \<open>writeFile\<close> fails when the subdirectory
  is a file or the target is a directory. The difficulty and the file name are taken
  to be names of entries, each a single path component.
\<close>

definition writeQuizFile ::
  "(string \<times> node) list \<Rightarrow> string \<Rightarrow> string \<Rightarrow> string \<Rightarrow> error + (string \<times> node) list" where
  "writeQuizFile files d quizFileName code =
     (let files1 = (if map_of files d = None then files @ [(d, Dir [])] else files)
      in case map_of files1 d of
           None \<Rightarrow> Inl ENOENT
         | Some (File content) \<Rightarrow> Inl ENOTDIR
         | Some (Dir quizFiles) \<Rightarrow>
             (case map_of quizFiles quizFileName of
                Some (Dir sub) \<Rightarrow> Inl EISDIR
              | _ \<Rightarrow>
                  Inr (AList.update d
                         (Dir (AList.update quizFileName (File code) quizFiles)) files1)))"

text \<open>
  One turn of the loop over the quizzes. The state is the entries of the playground
  and \<open>incomingQuizesCache\<close>.
\<close>

definition generateQuiz ::
  "'n env \<Rightarrow> bool \<Rightarrow> Snapshot \<Rightarrow> Snapshot \<Rightarrow> string \<Rightarrow> 'n Quiz
    \<Rightarrow> (string \<times> node) list \<times> Snapshot
    \<Rightarrow> error + (string \<times> node) list \<times> Snapshot" where
  "generateQuiz env keepChanges overridableFiles playgroundSnapshot locale quiz st =
     (let code = env_formatToCode env quiz locale
      in case quiz_target env locale quiz of
           Inl e \<Rightarrow> Inl e
         | Inr None \<Rightarrow> Inr st
         | Inr (Some (d, quizFileName)) \<Rightarrow>
             (let quizesPathByDifficulty = path_join (env_playgroundPath env) d;
                  quizPathFull = path_join quizesPathByDifficulty quizFileName
              in if \<not> keepChanges
                    \<or> (keepChanges
                        \<and> isQuizWritable quizFileName overridableFiles playgroundSnapshot)
                 then (case writeQuizFile (fst st) d quizFileName code of
                         Inl e \<Rightarrow> Inl e
                       | Inr files \<Rightarrow>
                           Inr (files,
                                snapshot_set quizFileName
                                  (calculateFileHash (env_sha1 env) quizPathFull code)
                                  (snd st)))
                 else Inr st))"

fun generateQuizes ::
  "'n env \<Rightarrow> bool \<Rightarrow> Snapshot \<Rightarrow> Snapshot \<Rightarrow> string \<Rightarrow> 'n Quiz list
    \<Rightarrow> (string \<times> node) list \<times> Snapshot
    \<Rightarrow> error option \<times> (string \<times> node) list \<times> Snapshot" where
  "generateQuizes env keepChanges overridableFiles playgroundSnapshot locale [] st = (None, st)"
| "generateQuizes env keepChanges overridableFiles playgroundSnapshot locale (quiz # quizes) st =
     (case generateQuiz env keepChanges overridableFiles playgroundSnapshot locale quiz st of
        Inl e \<Rightarrow> (Some e, st)
      | Inr st' \<Rightarrow>
          generateQuizes env keepChanges overridableFiles playgroundSnapshot locale quizes st')"

text \<open>
  The part of \<open>generatePlayground\<close> after the mode is known: the loop over the quizzes
  from the entries the playground starts with, and the cache file written at the end.
  An error in the loop rejects the promise of \<open>generatePlayground\<close>; what was written
  until then stays, and the cache file is not written.
\<close>

definition generateFiles ::
  "'n env \<Rightarrow> bool \<Rightarrow> Snapshot \<Rightarrow> Snapshot \<Rightarrow> Snapshot \<Rightarrow> string \<Rightarrow> 'n Quiz list
    \<Rightarrow> (string \<times> node) list \<Rightarrow> world \<Rightarrow> outcome \<times> world" where
  "generateFiles env keepChanges overridableFiles playgroundSnapshot currentPlaygroundCache
       locale quizes files w =
     (case generateQuizes env keepChanges overridableFiles playgroundSnapshot locale quizes
             (files, []) of
        (Some e, files', incomingQuizesCache) \<Rightarrow>
          (Rejected e, w \<lparr> playground := Some (Dir files') \<rparr>)
      | (None, files', incomingQuizesCache) \<Rightarrow>
          (Generated,
           w \<lparr> playground := Some (Dir files'),
               playgroundcache :=
                 Some (File (env_JSON_stringify env
                               (spread currentPlaygroundCache incomingQuizesCache))) \<rparr>))"

text \<open>
  \<open>generatePlayground\<close>. With \<open>--keep-changes\<close> or \<open>-K\<close> as the only argument the
  playground is snapshotted and kept; otherwise the user is asked before an existing
  playground is replaced, and the playground is removed and made anew
  (\<open>fs.remove\<close>, \<open>fs.ensureDir\<close>). Only then are the quizzes loaded; an error there
  rejects the promise of \<open>generatePlayground\<close> before the loop.
\<close>

definition generatePlayground ::
  "'n env \<Rightarrow> string list \<Rightarrow> answers \<Rightarrow> error + 'n Quiz list \<Rightarrow> world \<Rightarrow> outcome \<times> world" where
  "generatePlayground env argv ans loaded w =
     (case readPlaygroundCache (env_JSON_parse env) (playgroundcache w) of
        Inl out \<Rightarrow> (out, w)
      | Inr currentPlaygroundCache \<Rightarrow>
          if keep_changes_requested argv
          then (case readdirSync (playground w) of
                  Inl e \<Rightarrow> (Rejected e, w)
                | Inr files \<Rightarrow>
                    (let playgroundSnapshot =
                           takeSnapshot (env_sha1 env) (env_playgroundPath env) files;
                         overridableFiles =
                           calculateOverridableFiles currentPlaygroundCache playgroundSnapshot
                     in case loaded of
                          Inl e \<Rightarrow> (Rejected e, w)
                        | Inr quizes \<Rightarrow>
                            generateFiles env True overridableFiles playgroundSnapshot
                              currentPlaygroundCache (choose_locale env argv ans) quizes files w))
          else if playground w \<noteq> None \<and> \<not> confirm ans then (Skipped, w)
          else (case loaded of
                  Inl e \<Rightarrow> (Rejected e, w \<lparr> playground := Some (Dir []) \<rparr>)
                | Inr quizes \<Rightarrow>
                    generateFiles env False [] [] currentPlaygroundCache
                      (choose_locale env argv ans) quizes [] w))"

section \<open>Example inputs\<close>

text \<open>
  A small playground run, for evaluating the model on concrete inputs: stand-ins for
  the functions taken from outside (\<open>Number\<close> reads a string of digits; the digest
  prefixes its input, so it is never empty and never collides), one quiz with English
  metadata, and a playground in which the user has edited the answer file and added a
  file of notes.
\<close>

definition example_Number :: "string \<Rightarrow> nat" where
  "example_Number s = foldl (\<lambda>n c. 10 * n + (of_char c - 48)) 0 s"

definition example_env :: "nat env" where
  "example_env =
     \<lparr> env_sha1 = (\<lambda>s. ''sha1:'' @ s),
       env_JSON_parse = (\<lambda>s. if s = ''{}'' then Some [] else None),
       env_JSON_stringify = (\<lambda>s. concat (map (\<lambda>(k, v). k @ ''='' @ v @ '';'') s)),
       env_supportedLocales = [''en'', ''ja''],
       env_defaultLocale = ''en'',
       env_formatToCode = (\<lambda>quiz locale. ''// '' @ locale),
       env_getQuestionFullName = (\<lambda>n d title. ''00001-'' @ d @ ''-hello''),
       env_playgroundPath = ''/repo/playground'' \<rparr>"

definition example_quiz :: "nat Quiz" where
  "example_quiz =
     \<lparr> no = 1, difficulty = ''easy'', path = ''1-easy-hello'',
       info = [(''en'', [(''title'', JStr ''Hello''), (''difficulty'', JStr ''easy''),
                         (''tags'', JUndefined), (''related'', JUndefined)])],
       readme = [(''en'', ''Say hello.'')], template = ''type Hello = any'', tests = None \<rparr>"

definition example_files :: "(string \<times> node) list" where
  "example_files =
     [(''easy'', Dir [(''00001-easy-hello.ts'', File ''type Hello = string'')]),
      (''notes.txt'', File ''my notes'')]"

definition example_world :: world where
  "example_world =
     \<lparr> playground = Some (Dir example_files), playgroundcache = Some (File ''{}'') \<rparr>"

text \<open>
  A playground in which the quiz has no file yet: a file of notes and nothing else.
\<close>

definition example_new_files :: "(string \<times> node) list" where
  "example_new_files = [(''notes.txt'', File ''my notes'')]"

definition example_new_world :: world where
  "example_new_world =
     \<lparr> playground = Some (Dir example_new_files), playgroundcache = Some (File ''{}'') \<rparr>"

definition example_argv :: "string list" where
  "example_argv = [''node'', ''generate-play.ts'', ''--keep-changes'']"

definition example_answers :: answers where
  "example_answers = \<lparr> confirm = False, chosen_locale = ''en'' \<rparr>"


chapter \<open>Properties\<close>

section \<open>Objects\<close>

lemma get_set_prop: "get_prop (set_prop k v obj) k' = (if k' = k then v else get_prop obj k')"
  by (simp add: get_prop_def set_prop_def update_conv')

lemma map_of_fold_set_prop:
  "map_of (fold (\<lambda>(k, v) acc. set_prop k v acc) src target) = map_of target ++ map_of (rev src)"
proof (induction src arbitrary: target)
  case Nil
  then show ?case by simp
next
  case (Cons p src)
  obtain k v where p: "p = (k, v)" by (cases p)
  have "map_of (set_prop k v target) = map_of target ++ [k \<mapsto> v]"
    by (simp add: set_prop_def update_conv')
  then have "map_of (set_prop k v target) ++ map_of (rev src)
      = map_of target ++ map_of (rev ((k, v) # src))"
    by (simp add: map_add_assoc)
  with Cons.IH [of "set_prop k v target"] p show ?case by simp
qed

lemma get_Object_assign:
  "get_prop (Object_assign target source) k =
     (case source of
        None \<Rightarrow> get_prop target k
      | Some src \<Rightarrow> (case map_of (rev src) k of None \<Rightarrow> get_prop target k | Some v \<Rightarrow> v))"
  by (simp add: Object_assign_def get_prop_def map_of_fold_set_prop map_add_def
      split: option.splits)


section \<open>Locale resolution\<close>

lemma typed_info_lookup:
  assumes "typed_info quiz" and "map_of (info quiz) l = Some meta"
  shows "distinct (map fst meta)"
    and "list_or_undefined (get_prop meta ''tags'')"
    and "list_or_undefined (get_prop meta ''related'')"
proof -
  from assms(2) have "(l, meta) \<in> set (info quiz)"
    by (rule map_of_SomeD)
  with assms(1) show "distinct (map fst meta)"
    and "list_or_undefined (get_prop meta ''tags'')"
    and "list_or_undefined (get_prop meta ''related'')"
    by (auto simp: typed_info_def typed_meta_def list_all_iff)
qed

text \<open>
  The metadata that \<open>loadInfo\<close> returns have this shape, whatever the YAML file
  holds under \<open>tags\<close> and \<open>related\<close>.
\<close>

lemma loadInfo_typed:
  assumes "loadInfo YAML_load toString s = Some meta"
    and "\<And>object. YAML_load s = Inr (Some object) \<Longrightarrow> distinct (map fst object)"
  shows "typed_meta meta"
proof -
  from assms(1) obtain object where object: "YAML_load s = Inr (Some object)"
    and meta: "meta = loadInfo_arrayKey toString ''related''
                       (loadInfo_arrayKey toString ''tags'' object)"
    by (auto simp: loadInfo_def split: sum.splits option.splits)
  have shape: "list_or_undefined (get_prop (loadInfo_arrayKey toString key ob) key)" for key ob
    by (simp add: loadInfo_arrayKey_def get_set_prop list_or_undefined_def)
  have other: "get_prop (loadInfo_arrayKey toString key ob) key' = get_prop ob key'"
    if "key' \<noteq> key" for key key' ob
    using that by (simp add: loadInfo_arrayKey_def get_set_prop)
  have keys: "distinct (map fst (loadInfo_arrayKey toString key ob))"
    if "distinct (map fst ob)" for key ob
    using that by (simp add: loadInfo_arrayKey_def set_prop_def distinct_update)
  from assms(2) [OF object] have "distinct (map fst meta)"
    unfolding meta by (intro keys)
  moreover have "list_or_undefined (get_prop meta ''related'')"
    unfolding meta by (rule shape)
  moreover have "list_or_undefined (get_prop meta ''tags'')"
    unfolding meta using shape [of "''tags''" object] by (simp add: other)
  ultimately show ?thesis by (simp add: typed_meta_def)
qed

lemma map_of_rev_distinct: "distinct (map fst xs) \<Longrightarrow> map_of (rev xs) = map_of xs"
  by (rule map_of_inject_set [THEN iffD2]) (simp_all add: distinct_rev rev_map [symmetric])

lemma resolveInfo_other_field:
  assumes "k \<noteq> ''tags''" and "k \<noteq> ''related''"
  shows "get_prop (resolveInfo defaultLocale quiz locale) k =
           get_prop (Object_assign (Object_assign [] (map_of (info quiz) defaultLocale))
                       (map_of (info quiz) locale)) k"
  using assms by (simp add: resolveInfo_def Let_def get_set_prop split: jsval.split)

lemma resolveInfo_related:
  "get_prop (resolveInfo defaultLocale quiz locale) ''related'' =
     js_or (js_or (opt_get (map_of (info quiz) locale) ''related'')
                  (opt_get (map_of (info quiz) defaultLocale) ''related''))
           (JArr [])"
  by (simp add: resolveInfo_def Let_def get_set_prop split: jsval.split)

lemma resolveInfo_tags:
  "get_prop (resolveInfo defaultLocale quiz locale) ''tags'' =
     (case js_or (js_or (opt_get (map_of (info quiz) locale) ''tags'')
                        (opt_get (map_of (info quiz) defaultLocale) ''tags''))
                 (JArr []) of
        JStr s \<Rightarrow> JArr (map JStr (filter (\<lambda>i. i \<noteq> []) (map trim (split_on CHR '','' s))))
      | v \<Rightarrow> v)"
  by (simp add: resolveInfo_def Let_def get_set_prop split: jsval.split)

lemma typed_opt_get:
  assumes "typed_info quiz"
  shows "list_or_undefined (opt_get (map_of (info quiz) l) ''tags'')"
    and "list_or_undefined (opt_get (map_of (info quiz) l) ''related'')"
  using typed_info_lookup [OF assms]
  by (auto simp: opt_get_def list_or_undefined_def split: option.split)

lemma list_or_undefined_or:
  assumes "list_or_undefined a" and "list_or_undefined b"
  shows "js_or (js_or a b) (JArr []) =
           (case a of JArr xs \<Rightarrow> JArr xs
            | _ \<Rightarrow> (case b of JArr ys \<Rightarrow> JArr ys | _ \<Rightarrow> JArr []))"
  using assms by (auto simp: list_or_undefined_def js_or_def split: jsval.splits)

text \<open>
  C3, as amended. When a quiz has metadata in the default locale only, \<open>resolveInfo\<close>
  for another locale returns every field as the default locale has it, except that
  \<open>tags\<close> and \<open>related\<close> are the empty list where the default locale leaves them
  undefined. When both locales have metadata, every field that is defined in both is
  returned with the value of the target locale.
\<close>

theorem resolveInfo_fallback_and_override:
  assumes "typed_info quiz"
  shows "(map_of (info quiz) locale = None \<and> map_of (info quiz) defaultLocale = Some d \<longrightarrow>
            get_prop (resolveInfo defaultLocale quiz locale) k =
              (if (k = ''tags'' \<or> k = ''related'') \<and> get_prop d k = JUndefined
               then JArr [] else get_prop d k))
       \<and> (map_of (info quiz) locale = Some t \<and> map_of (info quiz) defaultLocale = Some d
            \<and> get_prop d k \<noteq> JUndefined \<and> get_prop t k \<noteq> JUndefined \<longrightarrow>
            get_prop (resolveInfo defaultLocale quiz locale) k = get_prop t k)"
proof (intro conjI impI)
  assume only: "map_of (info quiz) locale = None \<and> map_of (info quiz) defaultLocale = Some d"
  note td = typed_info_lookup [OF assms, of defaultLocale d]
  show "get_prop (resolveInfo defaultLocale quiz locale) k =
          (if (k = ''tags'' \<or> k = ''related'') \<and> get_prop d k = JUndefined
           then JArr [] else get_prop d k)"
  proof (cases "k = ''tags''")
    case True
    with only td(2) show ?thesis
      by (auto simp: resolveInfo_tags opt_get_def js_or_def list_or_undefined_def
          split: jsval.splits)
  next
    case False
    note not_tags = this
    show ?thesis
    proof (cases "k = ''related''")
      case True
      with only td(3) show ?thesis
        by (auto simp: resolveInfo_related opt_get_def js_or_def list_or_undefined_def
            split: jsval.splits)
    next
      case False
      with not_tags have "get_prop (resolveInfo defaultLocale quiz locale) k =
          get_prop (Object_assign (Object_assign [] (map_of (info quiz) defaultLocale))
                       (map_of (info quiz) locale)) k"
        by (rule resolveInfo_other_field)
      also from only td(1) have "\<dots> = get_prop d k"
        unfolding get_Object_assign
        by (simp add: map_of_rev_distinct get_prop_def split: option.split)
      finally show ?thesis using False not_tags by simp
    qed
  qed
next
  assume both: "map_of (info quiz) locale = Some t \<and> map_of (info quiz) defaultLocale = Some d
    \<and> get_prop d k \<noteq> JUndefined \<and> get_prop t k \<noteq> JUndefined"
  note tt = typed_info_lookup [OF assms, of "locale" t]
  show "get_prop (resolveInfo defaultLocale quiz locale) k = get_prop t k"
  proof (cases "k = ''tags''")
    case True
    with both tt(2) show ?thesis
      by (auto simp: resolveInfo_tags opt_get_def js_or_def list_or_undefined_def
          split: jsval.splits)
  next
    case False
    note not_tags = this
    show ?thesis
    proof (cases "k = ''related''")
      case True
      with both tt(3) show ?thesis
        by (auto simp: resolveInfo_related opt_get_def js_or_def list_or_undefined_def
            split: jsval.splits)
    next
      case False
      with not_tags have "get_prop (resolveInfo defaultLocale quiz locale) k =
          get_prop (Object_assign (Object_assign [] (map_of (info quiz) defaultLocale))
                       (map_of (info quiz) locale)) k"
        by (rule resolveInfo_other_field)
      also from both tt(1) have "\<dots> = get_prop t k"
        unfolding get_Object_assign
        by (auto simp: map_of_rev_distinct get_prop_def split: option.splits)
      finally show ?thesis .
    qed
  qed
qed

theorem resolveInfo_fallback_and_override_witness:
  "typed_info \<lparr> no = (268::nat), difficulty = ''easy'', path = ''268-easy-if'',
       info = [(''en'', [(''title'', JStr ''If''), (''tags'', JArr [JStr ''utils'']),
                         (''related'', JUndefined)]),
               (''ja'', [(''title'', JStr ''If (ja)''), (''tags'', JUndefined),
                         (''related'', JUndefined)])],
       readme = [], template = [], tests = None \<rparr>
   \<and> get_prop (resolveInfo ''en''
         \<lparr> no = (268::nat), difficulty = ''easy'', path = ''268-easy-if'',
           info = [(''en'', [(''title'', JStr ''If''), (''tags'', JArr [JStr ''utils'']),
                             (''related'', JUndefined)]),
                   (''ja'', [(''title'', JStr ''If (ja)''), (''tags'', JUndefined),
                             (''related'', JUndefined)])],
           readme = [], template = [], tests = None \<rparr> ''ko'') ''related'' = JArr []
   \<and> get_prop (resolveInfo ''en''
         \<lparr> no = (268::nat), difficulty = ''easy'', path = ''268-easy-if'',
           info = [(''en'', [(''title'', JStr ''If''), (''tags'', JArr [JStr ''utils'']),
                             (''related'', JUndefined)]),
                   (''ja'', [(''title'', JStr ''If (ja)''), (''tags'', JUndefined),
                             (''related'', JUndefined)])],
           readme = [], template = [], tests = None \<rparr> ''ja'') ''title'' = JStr ''If (ja)''"
proof -
  let ?q = "\<lparr> no = (268::nat), difficulty = ''easy'', path = ''268-easy-if'',
       info = [(''en'', [(''title'', JStr ''If''), (''tags'', JArr [JStr ''utils'']),
                         (''related'', JUndefined)]),
               (''ja'', [(''title'', JStr ''If (ja)''), (''tags'', JUndefined),
                         (''related'', JUndefined)])],
       readme = [], template = [], tests = None \<rparr>"
  have ty: "typed_info ?q"
    by (simp add: typed_info_def typed_meta_def list_or_undefined_def get_prop_def)
  from resolveInfo_fallback_and_override
      [OF ty, of "''ko''" "''en''" "[(''title'', JStr ''If''), (''tags'', JArr [JStr ''utils'']),
                 (''related'', JUndefined)]" "''related''"]
  have a: "get_prop (resolveInfo ''en'' ?q ''ko'') ''related'' = JArr []"
    by (simp add: get_prop_def)
  from resolveInfo_fallback_and_override
      [OF ty, of "''ja''" "''en''"
          "[(''title'', JStr ''If''), (''tags'', JArr [JStr ''utils'']),
                 (''related'', JUndefined)]" "''title''"
          "[(''title'', JStr ''If (ja)''), (''tags'', JUndefined),
                 (''related'', JUndefined)]"]
  have b: "get_prop (resolveInfo ''en'' ?q ''ja'') ''title'' = JStr ''If (ja)''"
    by (simp add: get_prop_def)
  from ty a b show ?thesis by simp
qed

text \<open>
  The claim as it stands fails where the default locale leaves \<open>tags\<close> undefined,
  which is what \<open>loadInfo\<close> stores for a quiz without tags: the quiz below has
  metadata in \<open>en\<close> only, and resolving it for \<open>ja\<close> returns the empty list for
  \<open>tags\<close> where the default-locale metadata have \<open>undefined\<close>.
\<close>

theorem resolveInfo_default_only_counterexample:
  "map_of (info \<lparr> no = (1::nat), difficulty = ''easy'', path = ''1-easy-hello'',
                  info = [(''en'', [(''title'', JStr ''Hello''), (''tags'', JUndefined),
                                    (''related'', JUndefined)])],
                  readme = [], template = [], tests = None \<rparr>) ''ja'' = None
   \<and> map_of (info \<lparr> no = (1::nat), difficulty = ''easy'', path = ''1-easy-hello'',
                  info = [(''en'', [(''title'', JStr ''Hello''), (''tags'', JUndefined),
                                    (''related'', JUndefined)])],
                  readme = [], template = [], tests = None \<rparr>) ''en''
       = Some [(''title'', JStr ''Hello''), (''tags'', JUndefined), (''related'', JUndefined)]
   \<and> get_prop [(''title'', JStr ''Hello''), (''tags'', JUndefined), (''related'', JUndefined)]
         ''tags'' = JUndefined
   \<and> get_prop (resolveInfo ''en''
         \<lparr> no = (1::nat), difficulty = ''easy'', path = ''1-easy-hello'',
           info = [(''en'', [(''title'', JStr ''Hello''), (''tags'', JUndefined),
                             (''related'', JUndefined)])],
           readme = [], template = [], tests = None \<rparr> ''ja'') ''tags'' = JArr []"
  by (simp add: resolveInfo_def Let_def Object_assign_def set_prop_def get_prop_def
      opt_get_def js_or_def)

text \<open>
  C4. For metadata of the declared shape, the resolved \<open>tags\<close> are the target locale's
  list when the target locale has one, otherwise the default locale's list, otherwise
  the empty list, and the same holds for \<open>related\<close>; so both are always lists and
  never a concatenation of the two locales' lists.
\<close>

theorem resolveInfo_list_fields:
  assumes "typed_info quiz"
  shows "get_prop (resolveInfo defaultLocale quiz locale) ''tags'' =
           (case opt_get (map_of (info quiz) locale) ''tags'' of
              JArr xs \<Rightarrow> JArr xs
            | _ \<Rightarrow> (case opt_get (map_of (info quiz) defaultLocale) ''tags'' of
                     JArr ys \<Rightarrow> JArr ys
                   | _ \<Rightarrow> JArr []))
       \<and> get_prop (resolveInfo defaultLocale quiz locale) ''related'' =
           (case opt_get (map_of (info quiz) locale) ''related'' of
              JArr xs \<Rightarrow> JArr xs
            | _ \<Rightarrow> (case opt_get (map_of (info quiz) defaultLocale) ''related'' of
                     JArr ys \<Rightarrow> JArr ys
                   | _ \<Rightarrow> JArr []))
       \<and> (\<exists>xs. get_prop (resolveInfo defaultLocale quiz locale) ''tags'' = JArr xs)
       \<and> (\<exists>ys. get_prop (resolveInfo defaultLocale quiz locale) ''related'' = JArr ys)"
proof -
  note ty = typed_opt_get [OF assms]
  have tags: "get_prop (resolveInfo defaultLocale quiz locale) ''tags'' =
           (case opt_get (map_of (info quiz) locale) ''tags'' of
              JArr xs \<Rightarrow> JArr xs
            | _ \<Rightarrow> (case opt_get (map_of (info quiz) defaultLocale) ''tags'' of
                     JArr ys \<Rightarrow> JArr ys
                   | _ \<Rightarrow> JArr []))"
    unfolding resolveInfo_tags list_or_undefined_or [OF ty(1) [of "locale"] ty(1) [of defaultLocale]]
    by (simp split: jsval.split)
  have related: "get_prop (resolveInfo defaultLocale quiz locale) ''related'' =
           (case opt_get (map_of (info quiz) locale) ''related'' of
              JArr xs \<Rightarrow> JArr xs
            | _ \<Rightarrow> (case opt_get (map_of (info quiz) defaultLocale) ''related'' of
                     JArr ys \<Rightarrow> JArr ys
                   | _ \<Rightarrow> JArr []))"
    unfolding resolveInfo_related
    by (rule list_or_undefined_or [OF ty(2) [of "locale"] ty(2) [of defaultLocale]])
  have "\<exists>xs. get_prop (resolveInfo defaultLocale quiz locale) ''tags'' = JArr xs"
    unfolding tags by (simp split: jsval.split)
  moreover have "\<exists>ys. get_prop (resolveInfo defaultLocale quiz locale) ''related'' = JArr ys"
    unfolding related by (simp split: jsval.split)
  ultimately show ?thesis using tags related by blast
qed

theorem resolveInfo_list_fields_witness:
  "typed_info \<lparr> no = (7::nat), difficulty = ''easy'', path = ''7-easy-readonly'',
       info = [(''en'', [(''title'', JStr ''Readonly''),
                         (''tags'', JArr [JStr ''a'', JStr ''b'']), (''related'', JUndefined)]),
               (''ja'', [(''tags'', JArr [JStr ''c'']), (''related'', JUndefined)])],
       readme = [], template = [], tests = None \<rparr>
   \<and> get_prop (resolveInfo ''en''
         \<lparr> no = (7::nat), difficulty = ''easy'', path = ''7-easy-readonly'',
           info = [(''en'', [(''title'', JStr ''Readonly''),
                             (''tags'', JArr [JStr ''a'', JStr ''b'']), (''related'', JUndefined)]),
                   (''ja'', [(''tags'', JArr [JStr ''c'']), (''related'', JUndefined)])],
           readme = [], template = [], tests = None \<rparr> ''ja'') ''tags'' = JArr [JStr ''c'']
   \<and> get_prop (resolveInfo ''en''
         \<lparr> no = (7::nat), difficulty = ''easy'', path = ''7-easy-readonly'',
           info = [(''en'', [(''title'', JStr ''Readonly''),
                             (''tags'', JArr [JStr ''a'', JStr ''b'']), (''related'', JUndefined)]),
                   (''ja'', [(''tags'', JArr [JStr ''c'']), (''related'', JUndefined)])],
           readme = [], template = [], tests = None \<rparr> ''ja'') ''related'' = JArr []"
proof -
  let ?q = "\<lparr> no = (7::nat), difficulty = ''easy'', path = ''7-easy-readonly'',
       info = [(''en'', [(''title'', JStr ''Readonly''),
                         (''tags'', JArr [JStr ''a'', JStr ''b'']), (''related'', JUndefined)]),
               (''ja'', [(''tags'', JArr [JStr ''c'']), (''related'', JUndefined)])],
       readme = [], template = [], tests = None \<rparr>"
  have ty: "typed_info ?q"
    by (simp add: typed_info_def typed_meta_def list_or_undefined_def get_prop_def)
  from resolveInfo_list_fields [OF ty, of "''en''" "''ja''"]
  have "get_prop (resolveInfo ''en'' ?q ''ja'') ''tags'' = JArr [JStr ''c'']"
    and "get_prop (resolveInfo ''en'' ?q ''ja'') ''related'' = JArr []"
    by (simp_all add: opt_get_def get_prop_def)
  with ty show ?thesis by simp
qed

section \<open>Loading a quiz\<close>

lemma takeWhile_digits_dash:
  assumes "\<forall>c \<in> set ds. is_digit c"
  shows "takeWhile is_digit (ds @ CHR ''-'' # rest) = ds"
    and "dropWhile is_digit (ds @ CHR ''-'' # rest) = CHR ''-'' # rest"
proof -
  have "\<not> is_digit CHR ''-''" by (simp add: is_digit_def)
  with assms show "takeWhile is_digit (ds @ CHR ''-'' # rest) = ds"
    and "dropWhile is_digit (ds @ CHR ''-'' # rest) = CHR ''-'' # rest"
    by (simp_all add: takeWhile_append2 dropWhile_append2)
qed

lemma replace_difficulty_folder:
  assumes "ds \<noteq> []" and "\<forall>c \<in> set ds. is_digit c"
    and "d \<noteq> []" and "CHR ''-'' \<notin> set d"
    and "\<forall>c \<in> set (d @ slug). \<not> is_line_terminator c"
  shows "replace_difficulty (ds @ ''-'' @ d @ ''-'' @ slug) = d"
proof -
  from assms(3) obtain x xs where d: "d = x # xs" by (cases d) auto
  with assms(4) have xs: "CHR ''-'' \<notin> set xs" by simp
  then have "\<forall>y \<in> set xs. y \<noteq> CHR ''-''" by auto
  then have tw: "takeWhile (\<lambda>y. y \<noteq> CHR ''-'') (xs @ CHR ''-'' # slug) = xs"
    by (simp add: takeWhile_append2)
  have nl: "\<not> is_line_terminator CHR ''-''" by (simp add: is_line_terminator_def)
  from assms(5) d nl have lt: "\<not> (\<exists>y \<in> set (x # xs @ CHR ''-'' # slug). is_line_terminator y)"
    by auto
  show ?thesis
    unfolding replace_difficulty_def d
    using assms(1) takeWhile_digits_dash [OF assms(2), of "x # xs @ CHR ''-'' # slug"] tw lt
    by (simp add: Let_def)
qed

text \<open>
  C7, as amended. For a folder named \<open><number>-<difficulty>-<slug>\<close>, \<open>loadQuiz\<close>
  stores the text between the first two dashes as the difficulty, whatever it is: the
  text is not compared with the values of \<open>Difficulty\<close>, and loading succeeds whenever
  the four file loads do.
\<close>

theorem loadQuiz_difficulty_unchecked:
  assumes "ds \<noteq> []" and "\<forall>c \<in> set ds. is_digit c"
    and "d \<noteq> []" and "CHR ''-'' \<notin> set d"
    and "\<forall>c \<in> set (d @ slug). \<not> is_line_terminator c"
  shows "\<exists>quiz. loadQuiz Number (ds @ ''-'' @ d @ ''-'' @ slug) (Inr i) (Inr r) (Inr t) (Inr ts)
                  = Inr quiz
               \<and> difficulty quiz = d"
  using replace_difficulty_folder [OF assms] by (simp add: loadQuiz_def)

theorem loadQuiz_difficulty_unchecked_witness:
  "\<exists>quiz. loadQuiz example_Number ''13-medium-hello-world''
             (Inr []) (Inr []) (Inr None) (Inr None) = Inr quiz
          \<and> difficulty quiz = ''medium''"
  using loadQuiz_difficulty_unchecked
    [of "''13''" "''medium''" "''hello-world''" example_Number "[]" "[]" None None]
  by (simp add: is_digit_def is_line_terminator_def)

text \<open>
  The claim as it stands fails: the folder \<open>1-foo-bar\<close> is loaded, and the quiz has
  the difficulty \<open>foo\<close>, which is none of the values of \<open>Difficulty\<close>.
\<close>

theorem loadQuiz_invalid_difficulty_counterexample:
  "loadQuiz example_Number ''1-foo-bar'' (Inr []) (Inr []) (Inr None) (Inr None)
     = Inr \<lparr> no = 1, difficulty = ''foo'', path = ''1-foo-bar'', info = [], readme = [],
             template = [], tests = None \<rparr>
   \<and> ''foo'' \<notin> set Difficulty"
  by (simp add: loadQuiz_def replace_difficulty_def replace_no_def is_digit_def
      is_line_terminator_def Difficulty_def Let_def example_Number_def)
section \<open>Region substitution\<close>

subsection \<open>Searching a text\<close>


lemma substitute_plain: "CHR ''$'' \<notin> set r \<Longrightarrow> substitute r m b a = r"
  by (induction r m b a rule: substitute.induct) auto

lemma split_first_None: "split_first p s = None \<longleftrightarrow> \<not> sublist p s"
  by (induction s) (auto simp: sublist_Cons_right)

lemma contains_sublist: "contains p s \<longleftrightarrow> sublist p s"
  by (simp add: contains_def split_first_None)

lemma split_first_SomeD:
  assumes "split_first p s = Some (a, b)"
  shows "s = a @ p @ b"
  using assms
proof (induction s arbitrary: a)
  case Nil
  then show ?case by (simp split: if_splits)
next
  case (Cons x s)
  show ?case
  proof (cases "prefix p (x # s)")
    case True
    with Cons.prems have "a = []" "b = drop (length p) (x # s)" by simp_all
    moreover from True have "x # s = p @ drop (length p) (x # s)"
      by (metis append_eq_conv_conj prefix_def)
    ultimately show ?thesis by simp
  next
    case False
    with Cons.prems obtain a' where "split_first p s = Some (a', b)" "a = x # a'"
      by auto
    with Cons.IH show ?thesis by simp
  qed
qed

lemma split_first_before:
  assumes "split_first p s = Some (a, b)" and "p \<noteq> []"
  shows "\<not> sublist p a"
  using assms(1)
proof (induction s arbitrary: a)
  case Nil
  with assms(2) show ?case by simp
next
  case (Cons x s)
  show ?case
  proof (cases "prefix p (x # s)")
    case True
    with Cons.prems have "a = []" by simp
    with assms(2) show ?thesis by simp
  next
    case False
    with Cons.prems obtain a' where a': "split_first p s = Some (a', b)" "a = x # a'"
      by auto
    from a'(1) have s: "s = a' @ p @ b" by (rule split_first_SomeD)
    have "\<not> prefix p (x # a')"
    proof
      assume "prefix p (x # a')"
      then have "prefix p ((x # a') @ p @ b)" by (rule prefix_prefix)
      with False s show False by simp
    qed
    with Cons.IH [OF a'(1)] a'(2) show ?thesis by (simp add: sublist_Cons_right)
  qed
qed

lemma split_first_unique:
  assumes "p \<noteq> []" and "\<not> sublist p (a @ butlast p)"
  shows "split_first p (a @ p @ b) = Some (a, b)"
  using assms(2)
proof (induction a)
  case Nil
  from assms(1) obtain c cs where "p @ b = c # cs" by (cases p) auto
  then show ?case by (metis append_Nil append_eq_conv_conj prefix_def split_first.simps(2) prefixI)
next
  case (Cons x a)
  have "\<not> prefix p (x # a @ p @ b)"
  proof
    assume pre: "prefix p (x # a @ p @ b)"
    have "prefix (x # a @ butlast p) (x # a @ p @ b)"
      by (metis Cons_prefix_Cons append_butlast_last_id assms(1) append.assoc prefixI same_prefix_prefix)
    with pre have "prefix p (x # a @ butlast p)"
      by (rule prefix_length_prefix) (use assms(1) in simp)
    with Cons.prems show False by (simp add: sublist_Cons_right)
  qed
  moreover from Cons.prems have "\<not> sublist p (a @ butlast p)"
    by (simp add: sublist_Cons_right)
  ultimately show ?case using Cons.IH by simp
qed


lemma split_last_None: "split_last p s = None \<longleftrightarrow> \<not> sublist p s"
  by (simp add: split_last_def split_first_None sublist_rev)

lemma split_last_SomeD:
  assumes "split_last p s = Some (a, b)"
  shows "s = a @ p @ b"
proof -
  from assms obtain b' a' where "split_first (rev p) (rev s) = Some (b', a')"
    and "a = rev a'" and "b = rev b'"
    by (auto simp: split_last_def)
  from split_first_SomeD [OF this(1)] this(2,3) have "rev s = rev (a @ p @ b)" by simp
  then show ?thesis by (simp only: rev_is_rev_conv)
qed

lemma split_last_after:
  assumes "split_last p s = Some (a, b)" and "p \<noteq> []"
  shows "\<not> sublist p b"
proof -
  from assms obtain b' a' where sf: "split_first (rev p) (rev s) = Some (b', a')"
    and "b = rev b'"
    by (auto simp: split_last_def)
  from split_first_before [OF sf] assms(2) have "\<not> sublist (rev p) b'" by simp
  with \<open>b = rev b'\<close> show ?thesis by (metis sublist_rev rev_rev_ident)
qed

lemma split_last_unique:
  assumes "p \<noteq> []" and "\<not> sublist p (tl p @ b)"
  shows "split_last p (a @ p @ b) = Some (a, b)"
proof -
  have "butlast (rev p) = rev (tl p)" by (simp add: butlast_rev)
  with assms(2) have "\<not> sublist (rev p) (rev b @ butlast (rev p))"
    by (metis rev_append sublist_rev)
  with assms(1) have "split_first (rev p) (rev b @ rev p @ rev a) = Some (rev b, rev a)"
    by (intro split_first_unique) simp_all
  then show ?thesis by (simp add: split_last_def)
qed

subsection \<open>Markers in a text\<close>

lemma marker_nonempty: "marker p \<Longrightarrow> p \<noteq> []"
  by (auto simp: marker_def)

lemma marker_hd: "marker p \<Longrightarrow> hd p = CHR ''<'' \<and> CHR ''<'' \<notin> set (tl p)"
  by (auto simp: marker_def)

lemma marker_last: "marker p \<Longrightarrow> last p = CHR ''>'' \<and> CHR ''>'' \<notin> set (butlast p)"
  by (auto simp: marker_def butlast_append)

lemma marker_no_straddle_left:
  assumes "marker p" and "p = xs1 @ xs2" and "xs1 \<noteq> []" and "prefix xs2 zs"
    and "zs \<noteq> []" and "hd zs = CHR ''<''"
  shows "xs2 = []"
proof (rule ccontr)
  assume "xs2 \<noteq> []"
  with assms(4,5,6) have "hd xs2 = CHR ''<''"
    by (metis hd_append2 prefix_def)
  with \<open>xs2 \<noteq> []\<close> have "CHR ''<'' \<in> set xs2" by (metis hd_in_set)
  moreover from assms(2,3) have "set xs2 \<subseteq> set (tl p)" by (cases xs1) auto
  ultimately show False using marker_hd [OF assms(1)] by auto
qed

lemma marker_no_straddle_right:
  assumes "marker p" and "p = xs1 @ xs2" and "xs2 \<noteq> []" and "suffix xs1 ys"
    and "ys \<noteq> []" and "last ys = CHR ''>''"
  shows "xs1 = []"
proof (rule ccontr)
  assume "xs1 \<noteq> []"
  with assms(4,5,6) have "last xs1 = CHR ''>''"
    by (metis last_appendR suffix_def)
  with \<open>xs1 \<noteq> []\<close> have "CHR ''>'' \<in> set xs1" by (metis last_in_set)
  moreover from assms(2,3) have "set xs1 \<subseteq> set (butlast p)"
    by (simp add: butlast_append)
  ultimately show False using marker_last [OF assms(1)] by auto
qed

lemma sublist_before_lt:
  assumes "marker p" and "zs = [] \<or> hd zs = CHR ''<''"
  shows "sublist p (ys @ zs) \<longleftrightarrow> sublist p ys \<or> sublist p zs"
proof (cases "zs = []")
  case True
  with marker_nonempty [OF assms(1)] show ?thesis by simp
next
  case False
  with assms(2) have hd: "hd zs = CHR ''<''" by simp
  show ?thesis
  proof
    assume "sublist p (ys @ zs)"
    then consider "sublist p ys" | "sublist p zs"
      | xs1 xs2 where "p = xs1 @ xs2" "suffix xs1 ys" "prefix xs2 zs"
      by (auto simp: sublist_append)
    then show "sublist p ys \<or> sublist p zs"
    proof cases
      case 3
      show ?thesis
      proof (cases "xs1 = []")
        case True
        with 3 show ?thesis by auto
      next
        case nonempty: False
        from marker_no_straddle_left [OF assms(1) 3(1) nonempty 3(3) False hd]
        have "xs2 = []" .
        with 3 show ?thesis by auto
      qed
    qed auto
  next
    assume "sublist p ys \<or> sublist p zs"
    then show "sublist p (ys @ zs)" by (auto simp: sublist_append)
  qed
qed

lemma sublist_after_gt:
  assumes "marker p" and "ys = [] \<or> last ys = CHR ''>''"
  shows "sublist p (ys @ zs) \<longleftrightarrow> sublist p ys \<or> sublist p zs"
proof (cases "ys = []")
  case True
  with marker_nonempty [OF assms(1)] show ?thesis by simp
next
  case False
  with assms(2) have last: "last ys = CHR ''>''" by simp
  show ?thesis
  proof
    assume "sublist p (ys @ zs)"
    then consider "sublist p ys" | "sublist p zs"
      | xs1 xs2 where "p = xs1 @ xs2" "suffix xs1 ys" "prefix xs2 zs"
      by (auto simp: sublist_append)
    then show "sublist p ys \<or> sublist p zs"
    proof cases
      case 3
      show ?thesis
      proof (cases "xs2 = []")
        case True
        with 3 show ?thesis by auto
      next
        case nonempty: False
        from marker_no_straddle_right [OF assms(1) 3(1) nonempty 3(2) False last]
        have "xs1 = []" .
        with 3 show ?thesis by auto
      qed
    qed auto
  next
    assume "sublist p ys \<or> sublist p zs"
    then show "sublist p (ys @ zs)" by (auto simp: sublist_append)
  qed
qed

lemma marker_sublist_set:
  assumes "marker p" and "sublist p s"
  shows "CHR ''<'' \<in> set s" and "CHR ''>'' \<in> set s"
  using assms by (auto simp: marker_def sublist_def)

lemma sublist_skip_plain_left:
  assumes "marker p" and "CHR ''<'' \<notin> set ys"
  shows "sublist p (ys @ zs) \<longleftrightarrow> sublist p zs"
proof
  assume "sublist p (ys @ zs)"
  then consider "sublist p ys" | "sublist p zs"
    | xs1 xs2 where "p = xs1 @ xs2" "suffix xs1 ys" "prefix xs2 zs"
    by (auto simp: sublist_append)
  then show "sublist p zs"
  proof cases
    case 1
    with marker_sublist_set(1) [OF assms(1)] assms(2) show ?thesis by blast
  next
    case 3
    show ?thesis
    proof (cases "xs1 = []")
      case True
      with 3 show ?thesis by auto
    next
      case False
      with 3(1) have "hd xs1 = hd p" by simp
      with False marker_hd [OF assms(1)] have "CHR ''<'' \<in> set xs1" by (metis hd_in_set)
      with 3(2) have "CHR ''<'' \<in> set ys" by (auto simp: suffix_def)
      with assms(2) show ?thesis by blast
    qed
  qed
next
  assume "sublist p zs"
  then show "sublist p (ys @ zs)" by (auto simp: sublist_append)
qed

lemma sublist_skip_plain_right:
  assumes "marker p" and "CHR ''>'' \<notin> set zs"
  shows "sublist p (ys @ zs) \<longleftrightarrow> sublist p ys"
proof
  assume "sublist p (ys @ zs)"
  then consider "sublist p ys" | "sublist p zs"
    | xs1 xs2 where "p = xs1 @ xs2" "suffix xs1 ys" "prefix xs2 zs"
    by (auto simp: sublist_append)
  then show "sublist p ys"
  proof cases
    case 2
    with marker_sublist_set(2) [OF assms(1)] assms(2) show ?thesis by blast
  next
    case 3
    show ?thesis
    proof (cases "xs2 = []")
      case True
      with 3 show ?thesis by auto
    next
      case False
      with 3(1) have "last xs2 = last p" by simp
      with False marker_last [OF assms(1)] have "CHR ''>'' \<in> set xs2" by (metis last_in_set)
      with 3(3) have "CHR ''>'' \<in> set zs" by (auto simp: prefix_def)
      with assms(2) show ?thesis by blast
    qed
  qed
next
  assume "sublist p ys"
  then show "sublist p (ys @ zs)" by (auto simp: sublist_append)
qed

lemma sublist_marker_marker:
  assumes "marker p" and "marker m" and "sublist p m"
  shows "p = m"
proof -
  from assms(3) obtain a b where m: "m = a @ p @ b" by (auto simp: sublist_def)
  have "a = []"
  proof (rule ccontr)
    assume "a \<noteq> []"
    with m have "set p \<subseteq> set (tl m)" by (cases a) auto
    moreover from marker_hd [OF assms(1)] marker_nonempty [OF assms(1)] have "CHR ''<'' \<in> set p"
      by (metis hd_in_set)
    ultimately show False using marker_hd [OF assms(2)] by auto
  qed
  moreover have "b = []"
  proof (rule ccontr)
    assume "b \<noteq> []"
    with m have "set p \<subseteq> set (butlast m)" by (auto simp: butlast_append)
    moreover from marker_last [OF assms(1)] marker_nonempty [OF assms(1)] have "CHR ''>'' \<in> set p"
      by (metis last_in_set)
    ultimately show False using marker_last [OF assms(2)] by auto
  qed
  ultimately show ?thesis using m by simp
qed

lemma sublist_around_marker:
  assumes "marker p" and "marker m"
  shows "sublist p (u @ m @ v) \<longleftrightarrow> sublist p u \<or> p = m \<or> sublist p v"
proof -
  from marker_hd [OF assms(2)] marker_nonempty [OF assms(2)]
  have "hd (m @ v) = CHR ''<''" by simp
  then have "sublist p (u @ m @ v) \<longleftrightarrow> sublist p u \<or> sublist p (m @ v)"
    by (intro sublist_before_lt [OF assms(1)]) simp
  also from marker_last [OF assms(2)]
  have "sublist p (m @ v) \<longleftrightarrow> sublist p m \<or> sublist p v"
    by (intro sublist_after_gt [OF assms(1)]) simp
  also have "sublist p m \<longleftrightarrow> p = m"
    using sublist_marker_marker [OF assms] by auto
  finally show ?thesis .
qed

lemma split_first_marker:
  assumes "marker p" and "\<not> sublist p a"
  shows "split_first p (a @ p @ b) = Some (a, b)"
proof -
  from marker_last [OF assms(1)] have "sublist p (a @ butlast p) \<longleftrightarrow> sublist p a"
    by (intro sublist_skip_plain_right [OF assms(1)]) simp
  with assms(2) marker_nonempty [OF assms(1)] show ?thesis
    by (intro split_first_unique) simp_all
qed

lemma split_last_marker:
  assumes "marker p" and "\<not> sublist p b"
  shows "split_last p (a @ p @ b) = Some (a, b)"
proof -
  from marker_hd [OF assms(1)] have "sublist p (tl p @ b) \<longleftrightarrow> sublist p b"
    by (intro sublist_skip_plain_left [OF assms(1)]) simp
  with assms(2) marker_nonempty [OF assms(1)] show ?thesis
    by (intro split_last_unique) simp_all
qed

lemma match_region_marker:
  assumes "marker s" and "marker e" and "\<not> sublist s before" and "\<not> sublist e after"
  shows "match_region s e (before @ s @ inner @ e @ after) = Some (before, inner, after)"
  using split_first_marker [OF assms(1,3)] split_last_marker [OF assms(2,4)]
  by (simp add: match_region_def)

lemma match_region_SomeD:
  assumes "match_region s e text = Some (before, inner, after)" and "s \<noteq> []" and "e \<noteq> []"
  shows "text = before @ s @ inner @ e @ after"
    and "\<not> sublist s before" and "\<not> sublist e after"
proof -
  from assms(1) obtain rest where sf: "split_first s text = Some (before, rest)"
    and sl: "split_last e rest = Some (inner, after)"
    by (auto simp: match_region_def split: option.splits)
  from split_first_SomeD [OF sf] split_last_SomeD [OF sl]
  show "text = before @ s @ inner @ e @ after" by simp
  from split_first_before [OF sf assms(2)] show "\<not> sublist s before" .
  from split_last_after [OF sl assms(3)] show "\<not> sublist e after" .
qed


subsection \<open>The four markers\<close>

lemma markers:
  "marker info_header_start" "marker info_header_end"
  "marker info_footer_start" "marker info_footer_end"
  unfolding marker_def info_header_start_def info_header_end_def
    info_footer_start_def info_footer_end_def
  by simp_all

lemma markers_distinct:
  "info_header_start \<noteq> info_header_end" "info_header_start \<noteq> info_footer_start"
  "info_header_start \<noteq> info_footer_end" "info_header_end \<noteq> info_header_start"
  "info_header_end \<noteq> info_footer_start" "info_header_end \<noteq> info_footer_end"
  "info_footer_start \<noteq> info_header_start" "info_footer_start \<noteq> info_header_end"
  "info_footer_start \<noteq> info_footer_end" "info_footer_end \<noteq> info_header_start"
  "info_footer_end \<noteq> info_header_end" "info_footer_end \<noteq> info_footer_start"
  by (simp_all add: info_header_start_def info_header_end_def
      info_footer_start_def info_footer_end_def)

lemma markers_no_dollar:
  "CHR ''$'' \<notin> set info_header_start" "CHR ''$'' \<notin> set info_header_end"
  "CHR ''$'' \<notin> set info_footer_start" "CHR ''$'' \<notin> set info_footer_end"
  by (simp_all add: info_header_start_def info_header_end_def
      info_footer_start_def info_footer_end_def)

lemma sublist_marker_append:
  assumes "marker p" and "marker m"
  shows "sublist p (m @ v) \<longleftrightarrow> p = m \<or> sublist p v"
  using sublist_around_marker [OF assms, of "[]" v] marker_nonempty [OF assms(1)] by simp

lemma sublist_markers:
  assumes "marker p" and "marker m"
  shows "sublist p m \<longleftrightarrow> p = m"
  using sublist_marker_marker [OF assms] by auto

lemma sublist_newlines:
  assumes "marker p"
  shows "sublist p (CHR 0x0A # CHR 0x0A # v) \<longleftrightarrow> sublist p v"
    and "sublist p (u @ [CHR 0x0A, CHR 0x0A]) \<longleftrightarrow> sublist p u"
  using sublist_skip_plain_left [OF assms, of "[CHR 0x0A, CHR 0x0A]" v]
    sublist_skip_plain_right [OF assms, of "[CHR 0x0A, CHR 0x0A]" u]
  by simp_all

lemmas marker_sublist =
  markers markers_distinct sublist_around_marker sublist_marker_append sublist_markers
  sublist_newlines marker_nonempty

lemma replace_region_marker:
  assumes "marker s" and "marker e" and "\<not> sublist s before" and "\<not> sublist e after"
    and "CHR ''$'' \<notin> set replacement"
  shows "replace_region s e replacement (before @ s @ inner @ e @ after)
           = before @ replacement @ after"
  using match_region_marker [OF assms(1-4)] substitute_plain [OF assms(5)]
  by (simp add: replace_region_def)

lemma settled_fixpoint:
  assumes "settled header footer text"
    and "\<not> sublist info_footer_start header" and "CHR ''$'' \<notin> set header"
    and "\<not> sublist info_header_end footer" and "CHR ''$'' \<notin> set footer"
  shows "insertInfoReadme_text text header footer = text"
proof -
  from assms(1) obtain P Q1 Q2 where
    doc_eq: "text = P @ info_header_start @ header @ info_header_end
                 @ Q1 @ info_footer_start @ footer @ info_footer_end @ Q2"
    and P: "\<not> sublist info_header_start P" "\<not> sublist info_footer_start P"
    and Q1: "\<not> sublist info_header_end Q1" "\<not> sublist info_footer_start Q1"
    and Q2: "\<not> sublist info_header_end Q2" "\<not> sublist info_footer_end Q2"
    by (auto simp: settled_def)
  have after_header: "\<not> sublist info_header_end
      (Q1 @ info_footer_start @ footer @ info_footer_end @ Q2)"
    using Q1(1) Q2(1) assms(4) by (simp add: marker_sublist)
  have before_footer: "\<not> sublist info_footer_start
      (P @ info_header_start @ header @ info_header_end @ Q1)"
    using P(2) Q1(2) assms(2) by (simp add: marker_sublist)
  have mh: "match_region info_header_start info_header_end text
      = Some (P, header, Q1 @ info_footer_start @ footer @ info_footer_end @ Q2)"
    unfolding doc_eq by (rule match_region_marker [OF markers(1,2) P(1) after_header])
  have mf: "match_region info_footer_start info_footer_end text
      = Some (P @ info_header_start @ header @ info_header_end @ Q1, footer, Q2)"
    using match_region_marker [OF markers(3,4) before_footer Q2(2), of footer]
    by (simp add: doc_eq)
  have rh: "replace_region info_header_start info_header_end
      (info_header_start @ header @ info_header_end) text = text"
    using mh assms(3) by (simp add: replace_region_def substitute_plain markers_no_dollar doc_eq)
  have rf: "replace_region info_footer_start info_footer_end
      (info_footer_start @ footer @ info_footer_end) text = text"
    using mf assms(5) by (simp add: replace_region_def substitute_plain markers_no_dollar doc_eq)
  show ?thesis
    using mh mf rh rf by (simp add: insertInfoReadme_text_def)
qed

lemma replace_both:
  assumes header: "\<not> sublist info_footer_start header" "CHR ''$'' \<notin> set header"
    and footer: "CHR ''$'' \<notin> set footer"
    and t2: "text2 = P @ info_header_start @ X @ info_header_end @ Q"
    and P: "\<not> sublist info_header_start P"
    and Q: "\<not> sublist info_header_end Q"
    and PX: "\<not> sublist info_footer_start (P @ info_header_start @ X)"
    and m: "match_region info_footer_start info_footer_end text2 \<noteq> None"
  shows "settled header footer
           (replace_region info_footer_start info_footer_end
              (info_footer_start @ footer @ info_footer_end)
              (replace_region info_header_start info_header_end
                 (info_header_start @ header @ info_header_end) text2))"
proof -
  from PX have P_fs: "\<not> sublist info_footer_start P" and X_fs: "\<not> sublist info_footer_start X"
    by (simp_all add: marker_sublist)
  have t3: "replace_region info_header_start info_header_end
      (info_header_start @ header @ info_header_end) text2
      = P @ info_header_start @ header @ info_header_end @ Q"
    unfolding t2
    using replace_region_marker [OF markers(1,2) P Q, of "info_header_start @ header @ info_header_end" X]
      header(2)
    by (simp add: markers_no_dollar)
  have "split_first info_footer_start Q \<noteq> None"
  proof
    assume "split_first info_footer_start Q = None"
    then have "\<not> sublist info_footer_start Q" by (simp add: split_first_None)
    with P_fs X_fs have "\<not> sublist info_footer_start text2"
      by (simp add: t2 marker_sublist)
    then have "split_first info_footer_start text2 = None" by (simp add: split_first_None)
    with m show False by (simp add: match_region_def)
  qed
  then obtain Q1 R where sf: "split_first info_footer_start Q = Some (Q1, R)" by auto
  from split_first_SomeD [OF sf] have Q_eq: "Q = Q1 @ info_footer_start @ R" .
  from split_first_before [OF sf] have Q1_fs: "\<not> sublist info_footer_start Q1"
    by (simp add: marker_sublist)
  have "\<not> sublist info_footer_start (P @ info_header_start @ X @ info_header_end @ Q1)"
    using P_fs X_fs Q1_fs by (simp add: marker_sublist)
  from split_first_marker [OF markers(3) this, of R]
  have "split_first info_footer_start text2
      = Some (P @ info_header_start @ X @ info_header_end @ Q1, R)"
    by (simp add: t2 Q_eq)
  with m have "split_last info_footer_end R \<noteq> None"
    by (auto simp: match_region_def split: option.splits)
  then obtain Y Q2 where sl: "split_last info_footer_end R = Some (Y, Q2)" by auto
  from split_last_SomeD [OF sl] have R_eq: "R = Y @ info_footer_end @ Q2" .
  from split_last_after [OF sl] have Q2_fe: "\<not> sublist info_footer_end Q2"
    by (simp add: marker_sublist)
  from Q have Q1_he: "\<not> sublist info_header_end Q1" and Q2_he: "\<not> sublist info_header_end Q2"
    by (simp_all add: Q_eq R_eq marker_sublist)
  have before: "\<not> sublist info_footer_start
      (P @ info_header_start @ header @ info_header_end @ Q1)"
    using P_fs header(1) Q1_fs by (simp add: marker_sublist)
  have "replace_region info_footer_start info_footer_end
      (info_footer_start @ footer @ info_footer_end)
      (P @ info_header_start @ header @ info_header_end @ Q)
      = P @ info_header_start @ header @ info_header_end @ Q1
          @ info_footer_start @ footer @ info_footer_end @ Q2"
    using replace_region_marker [OF markers(3,4) before Q2_fe,
        of "info_footer_start @ footer @ info_footer_end" Y] footer
    by (simp add: markers_no_dollar Q_eq R_eq)
  with t3 P P_fs Q1_he Q1_fs Q2_he Q2_fe show ?thesis
    unfolding settled_def by auto
qed


lemma sublist_newlines_marker:
  assumes "marker p" and "marker m"
  shows "sublist p (u @ CHR 0x0A # CHR 0x0A # m @ v) \<longleftrightarrow> sublist p u \<or> p = m \<or> sublist p v"
proof -
  have "sublist p ((u @ [CHR 0x0A, CHR 0x0A]) @ m @ v)
      \<longleftrightarrow> sublist p (u @ [CHR 0x0A, CHR 0x0A]) \<or> p = m \<or> sublist p v"
    by (rule sublist_around_marker [OF assms])
  then show ?thesis using sublist_newlines(2) [OF assms(1)] by simp
qed

lemma match_region_appended:
  assumes "marker s" and "marker e"
  shows "match_region s e (t @ s @ e) \<noteq> None"
proof (cases "split_first s t")
  case None
  then have "\<not> sublist s t" by (simp add: split_first_None)
  from split_first_marker [OF assms(1) this, of e]
  have "split_first s (t @ s @ e) = Some (t, e)" .
  moreover have "split_last e e \<noteq> None" by (simp add: split_last_None)
  ultimately show ?thesis by (auto simp: match_region_def split: option.splits)
next
  case (Some ab)
  then obtain a b where sf: "split_first s t = Some (a, b)" by (cases ab) auto
  from split_first_SomeD [OF sf] have t: "t = a @ s @ b" .
  from split_first_before [OF sf marker_nonempty [OF assms(1)]] have "\<not> sublist s a" .
  from split_first_marker [OF assms(1) this, of "b @ s @ e"]
  have "split_first s (t @ s @ e) = Some (a, b @ s @ e)" by (simp add: t)
  moreover have "sublist e (b @ s @ e)" by (auto simp: sublist_append)
  then have "split_last e (b @ s @ e) \<noteq> None" by (simp add: split_last_None)
  ultimately show ?thesis by (auto simp: match_region_def split: option.splits)
qed

lemma header_present:
  assumes "footer_follows_header text"
  shows "\<exists>P X Q.
      (if match_region info_header_start info_header_end text = None
       then info_header_start @ info_header_end @ [CHR 0x0A, CHR 0x0A] @ text
       else text) = P @ info_header_start @ X @ info_header_end @ Q
      \<and> \<not> sublist info_header_start P \<and> \<not> sublist info_header_end Q
      \<and> \<not> sublist info_footer_start (P @ info_header_start @ X)"
proof (cases "match_region info_header_start info_header_end text")
  case (Some m)
  then obtain P X Q where m: "match_region info_header_start info_header_end text = Some (P, X, Q)"
    by (cases m) auto
  from match_region_SomeD [OF m] have doc_eq: "text = P @ info_header_start @ X @ info_header_end @ Q"
    and P: "\<not> sublist info_header_start P" and Q: "\<not> sublist info_header_end Q"
    by (simp_all add: marker_sublist)
  from split_last_marker [OF markers(2) Q, of "P @ info_header_start @ X"]
  have "split_last info_header_end text = Some (P @ info_header_start @ X, Q)"
    by (simp add: doc_eq)
  with assms have "\<not> sublist info_footer_start (P @ info_header_start @ X)"
    by (simp add: footer_follows_header_def contains_sublist)
  with m doc_eq P Q show ?thesis by auto
next
  case None
  show ?thesis
  proof (cases "split_last info_header_end text")
    case no_end: None
    then have "\<not> sublist info_header_end text" by (simp add: split_last_None)
    then have "\<not> sublist info_header_end (CHR 0x0A # CHR 0x0A # text)"
      by (simp add: marker_sublist)
    moreover have "\<not> sublist info_footer_start ([] @ info_header_start @ [])"
      by (simp add: marker_sublist)
    moreover have "\<not> sublist info_header_start []"
      by (simp add: marker_sublist)
    ultimately show ?thesis using None
      by (intro exI [of _ "[]"] exI [of _ "CHR 0x0A # CHR 0x0A # text"]) simp
  next
    case (Some ab)
    then obtain a b where sl: "split_last info_header_end text = Some (a, b)" by (cases ab) auto
    from split_last_SomeD [OF sl] have doc_eq: "text = a @ info_header_end @ b" .
    from split_last_after [OF sl] have b: "\<not> sublist info_header_end b"
      by (simp add: marker_sublist)
    from assms sl have "\<not> sublist info_footer_start a"
      by (simp add: footer_follows_header_def contains_sublist)
    then have "\<not> sublist info_footer_start
        ([] @ info_header_start @ info_header_end @ CHR 0x0A # CHR 0x0A # a)"
      by (simp add: marker_sublist)
    moreover have "\<not> sublist info_header_start []"
      by (simp add: marker_sublist)
    ultimately show ?thesis using None b
      by (intro exI [of _ "[]"] exI [of _ "info_header_end @ CHR 0x0A # CHR 0x0A # a"]
          exI [of _ b]) (simp add: doc_eq)
  qed
qed

lemma insertInfoReadme_text_settled:
  assumes "footer_follows_header text"
    and "\<not> sublist info_footer_start header" and "CHR ''$'' \<notin> set header"
    and "CHR ''$'' \<notin> set footer"
  shows "settled header footer (insertInfoReadme_text text header footer)"
proof -
  define text1 where "text1 =
    (if match_region info_header_start info_header_end text = None
     then info_header_start @ info_header_end @ [CHR 0x0A, CHR 0x0A] @ text
     else text)"
  define text2 where "text2 =
    (if match_region info_footer_start info_footer_end text1 = None
     then text1 @ [CHR 0x0A, CHR 0x0A] @ info_footer_start @ info_footer_end
     else text1)"
  from header_present [OF assms(1)] obtain P X Q where
    t1: "text1 = P @ info_header_start @ X @ info_header_end @ Q"
    and P: "\<not> sublist info_header_start P" and Q: "\<not> sublist info_header_end Q"
    and PX: "\<not> sublist info_footer_start (P @ info_header_start @ X)"
    unfolding text1_def by blast
  have "\<exists>Q'. text2 = P @ info_header_start @ X @ info_header_end @ Q'
      \<and> \<not> sublist info_header_end Q'
      \<and> match_region info_footer_start info_footer_end text2 \<noteq> None"
  proof (cases "match_region info_footer_start info_footer_end text1 = None")
    case False
    with t1 Q show ?thesis by (auto simp: text2_def)
  next
    case True
    then have t2: "text2 = P @ info_header_start @ X @ info_header_end
        @ (Q @ [CHR 0x0A, CHR 0x0A] @ info_footer_start @ info_footer_end)"
      by (simp add: text2_def t1)
    have "\<not> sublist info_header_end
        (Q @ CHR 0x0A # CHR 0x0A # info_footer_start @ info_footer_end)"
      using Q by (simp add: sublist_newlines_marker marker_sublist)
    moreover have "match_region info_footer_start info_footer_end
        ((text1 @ [CHR 0x0A, CHR 0x0A]) @ info_footer_start @ info_footer_end) \<noteq> None"
      by (rule match_region_appended [OF markers(3,4)])
    with True have "match_region info_footer_start info_footer_end text2 \<noteq> None"
      by (simp add: text2_def)
    ultimately show ?thesis using t2 by auto
  qed
  then obtain Q' where t2: "text2 = P @ info_header_start @ X @ info_header_end @ Q'"
    and Q': "\<not> sublist info_header_end Q'"
    and m: "match_region info_footer_start info_footer_end text2 \<noteq> None"
    by blast
  have "insertInfoReadme_text text header footer =
      replace_region info_footer_start info_footer_end
        (info_footer_start @ footer @ info_footer_end)
        (replace_region info_header_start info_header_end
           (info_header_start @ header @ info_header_end) text2)"
    by (simp add: insertInfoReadme_text_def text1_def text2_def Let_def)
  with replace_both [OF assms(2,3,4) t2 P Q' PX m] show ?thesis by simp
qed

text \<open>
  The statements that rewrite the text are idempotent on every text in which the
  footer follows the header (no footer start marker before the last header end marker;
  a text without markers is one), for a generated header that does not contain the
  footer start marker, a generated footer that does not contain the header end marker,
  and generated fragments without a dollar sign. The marker pairs are inserted where
  they are missing.
\<close>

lemma insertInfoReadme_text_idempotent:
  assumes "footer_follows_header text"
    and "\<not> contains info_footer_start header" and "CHR ''$'' \<notin> set header"
    and "\<not> contains info_header_end footer" and "CHR ''$'' \<notin> set footer"
  shows "insertInfoReadme_text (insertInfoReadme_text text header footer) header footer
           = insertInfoReadme_text text header footer"
proof -
  from assms(2,4) have h: "\<not> sublist info_footer_start header"
    and f: "\<not> sublist info_header_end footer"
    by (simp_all add: contains_sublist)
  from insertInfoReadme_text_settled [OF assms(1) h assms(3,5)]
  have "settled header footer (insertInfoReadme_text text header footer)" .
  from settled_fixpoint [OF this h assms(3) f assms(5)] show ?thesis .
qed

lemma insertInfoReadme_text_example:
  "insertInfoReadme_text ''# Hello'' ''<h1>Hello</h1>'' ''<br>''
     = ''<!--info-header-start--><h1>Hello</h1><!--info-header-end-->'' @ [CHR 0x0A, CHR 0x0A]
       @ ''# Hello'' @ [CHR 0x0A, CHR 0x0A]
       @ ''<!--info-footer-start--><br><!--info-footer-end-->''"
  by (simp add: insertInfoReadme_text_def replace_region_def match_region_def split_last_def
      info_header_start_def info_header_end_def info_footer_start_def info_footer_end_def)

text \<open>
  The condition on the text is needed. In a text in which the footer pair encloses the
  header pair, the footer expression matches from the first footer start marker to the
  last footer end marker, so the first run replaces the header region together with
  the footer, and the second run inserts a header pair again.
\<close>

lemma insertInfoReadme_text_nested_example:
  "insertInfoReadme_text
     (insertInfoReadme_text
        ''<!--info-footer-start--><!--info-header-start--><!--info-header-end--><!--info-footer-end-->''
        ''H'' ''F'')
     ''H'' ''F''
   \<noteq> insertInfoReadme_text
        ''<!--info-footer-start--><!--info-header-start--><!--info-header-end--><!--info-footer-end-->''
        ''H'' ''F''"
proof -
  have first: "insertInfoReadme_text
        ''<!--info-footer-start--><!--info-header-start--><!--info-header-end--><!--info-footer-end-->''
        ''H'' ''F'' = ''<!--info-footer-start-->F<!--info-footer-end-->''"
    by (simp add: insertInfoReadme_text_def replace_region_def match_region_def split_last_def
        info_header_start_def info_header_end_def info_footer_start_def info_footer_end_def)
  have second: "insertInfoReadme_text ''<!--info-footer-start-->F<!--info-footer-end-->'' ''H'' ''F''
      = ''<!--info-header-start-->H<!--info-header-end-->'' @ [CHR 0x0A, CHR 0x0A]
        @ ''<!--info-footer-start-->F<!--info-footer-end-->''"
    by (simp add: insertInfoReadme_text_def replace_region_def match_region_def split_last_def
        info_header_start_def info_header_end_def info_footer_start_def info_footer_end_def)
  show ?thesis unfolding first second by simp
qed

text \<open>
  A dollar pattern in the generated header breaks idempotence on any text: \<open>$&\<close> is
  replaced by the match, which is the region written by the run before.
\<close>

lemma insertInfoReadme_text_dollar_example:
  "insertInfoReadme_text (insertInfoReadme_text ''x'' ''$&'' ''F'') ''$&'' ''F''
   \<noteq> insertInfoReadme_text ''x'' ''$&'' ''F''"
proof -
  have first: "insertInfoReadme_text ''x'' ''$&'' ''F''
      = ''<!--info-header-start--><!--info-header-start--><!--info-header-end--><!--info-header-end-->''
        @ [CHR 0x0A, CHR 0x0A] @ ''x'' @ [CHR 0x0A, CHR 0x0A]
        @ ''<!--info-footer-start-->F<!--info-footer-end-->''"
    by (simp add: insertInfoReadme_text_def replace_region_def match_region_def split_last_def
        info_header_start_def info_header_end_def info_footer_start_def info_footer_end_def)
  have "length (insertInfoReadme_text (insertInfoReadme_text ''x'' ''$&'' ''F'') ''$&'' ''F'')
      \<noteq> length (insertInfoReadme_text ''x'' ''$&'' ''F'')"
    unfolding first
    by (simp add: insertInfoReadme_text_def replace_region_def match_region_def split_last_def
        info_header_start_def info_header_end_def info_footer_start_def info_footer_end_def)
  then show ?thesis by auto
qed


section \<open>The order of the index\<close>











text \<open>
  Two examples. Quizzes of difficulties \<open>hard\<close>, \<open>pending\<close>, \<open>warm\<close>, \<open>hard\<close> come
  out as \<open>pending\<close>, \<open>warm\<close>, \<open>hard\<close>, \<open>hard\<close>, the two \<open>hard\<close> ones in the order of
  the input. Two difficulties outside the ranking are not grouped: \<open>foo\<close>, \<open>pending\<close>,
  \<open>foo\<close>, \<open>pending\<close> stay as they are, in front of a \<open>warm\<close> quiz.
\<close>

lemma quizesByDifficulty_example:
  "map no (quizesByDifficulty
     [\<lparr> no = (1::nat), difficulty = ''hard'', path = [], info = [], readme = [],
       template = [], tests = None \<rparr>,
      \<lparr> no = 2, difficulty = ''pending'', path = [], info = [], readme = [],
       template = [], tests = None \<rparr>,
      \<lparr> no = 3, difficulty = ''warm'', path = [], info = [], readme = [],
       template = [], tests = None \<rparr>,
      \<lparr> no = 4, difficulty = ''hard'', path = [], info = [], readme = [],
       template = [], tests = None \<rparr>])
   = [2, 3, 1, 4]"
  by (simp add: quizesByDifficulty_def array_sort_def DifficultyRank_def Let_def)

lemma quizesByDifficulty_unranked_example:
  "map no (quizesByDifficulty
     [\<lparr> no = (1::nat), difficulty = ''warm'', path = [], info = [], readme = [],
       template = [], tests = None \<rparr>,
      \<lparr> no = 2, difficulty = ''foo'', path = [], info = [], readme = [],
       template = [], tests = None \<rparr>,
      \<lparr> no = 3, difficulty = ''pending'', path = [], info = [], readme = [],
       template = [], tests = None \<rparr>,
      \<lparr> no = 4, difficulty = ''foo'', path = [], info = [], readme = [],
       template = [], tests = None \<rparr>,
      \<lparr> no = 5, difficulty = ''pending'', path = [], info = [], readme = [],
       template = [], tests = None \<rparr>])
   = [2, 3, 4, 5, 1]"
  by (simp add: quizesByDifficulty_def array_sort_def DifficultyRank_def Let_def)

section \<open>Snapshots of the playground\<close>

lemma snapshot_get_set:
  "snapshot_get (snapshot_set k v s) k' = (if k' = k then Some v else snapshot_get s k')"
  by (simp add: snapshot_get_def snapshot_set_def update_conv')

lemma snapshot_get_spread:
  "snapshot_get (spread a b) k =
     (case map_of (rev b) k of None \<Rightarrow> snapshot_get a k | Some v \<Rightarrow> Some v)"
proof (induction b arbitrary: a)
  case Nil
  then show ?case by (simp add: spread_def)
next
  case (Cons p b)
  obtain k' v' where p: "p = (k', v')" by (cases p)
  have "spread a (p # b) = spread (snapshot_set k' v' a) b"
    by (simp add: spread_def p)
  then show ?case
    by (simp add: Cons.IH snapshot_get_set p map_add_def split: option.split)
qed

lemma distinct_snapshot_set:
  "distinct (map fst s) \<Longrightarrow> distinct (map fst (snapshot_set k v s))"
  by (simp add: snapshot_set_def distinct_update)

lemma distinct_spread:
  "distinct (map fst a) \<Longrightarrow> distinct (map fst (spread a b))"
proof (induction b arbitrary: a)
  case Nil
  then show ?case by (simp add: spread_def)
next
  case (Cons p b)
  obtain k v where p: "p = (k, v)" by (cases p)
  have "spread a (p # b) = spread (snapshot_set k v a) b"
    by (simp add: spread_def p)
  with Cons.IH [OF distinct_snapshot_set [OF Cons.prems]] show ?case by simp
qed

lemma distinct_takeSnapshot_files:
  "distinct (map fst snapshot) \<Longrightarrow>
     distinct (map fst (takeSnapshot_files sha1 quizesPath files snapshot))"
  by (induction sha1 quizesPath files snapshot rule: takeSnapshot_files.induct)
    (simp_all add: distinct_snapshot_set distinct_spread)

lemma snapshot_get_spread_distinct:
  assumes "distinct (map fst b)"
  shows "snapshot_get (spread a b) k =
     (case snapshot_get b k of None \<Rightarrow> snapshot_get a k | Some v \<Rightarrow> Some v)"
  unfolding snapshot_get_spread map_of_rev_distinct [OF assms]
  by (simp add: snapshot_get_def)

lemma takeSnapshot_files_get:
  "snapshot_get (takeSnapshot_files sha1 quizesPath files snapshot) key =
     (case map_of (rev (visited quizesPath files)) key of
        None \<Rightarrow> snapshot_get snapshot key
      | Some (filePathFull, content) \<Rightarrow> Some (calculateFileHash sha1 filePathFull content))"
proof (induction sha1 quizesPath files snapshot rule: takeSnapshot_files.induct)
  case (1 sha1 quizesPath snapshot)
  then show ?case by simp
next
  case (2 sha1 quizesPath fname content files snapshot)
  then show ?case
    by (simp add: snapshot_get_set map_add_def split: option.split)
next
  case (3 sha1 quizesPath fname sub files snapshot)
  have "distinct (map fst (takeSnapshot_files sha1 (path_join quizesPath fname) sub []))"
    by (rule distinct_takeSnapshot_files) simp
  from snapshot_get_spread_distinct [OF this, of snapshot key] 3 show ?case
    by (simp add: map_add_def snapshot_get_def split: option.split)
qed

text \<open>
  C9. The snapshot holds, under every bare file name, the fingerprint of the file of
  that name that the traversal visits last: a later file replaces the entry of an
  earlier one. \<open>takeSnapshot\<close> returns the snapshot and nothing else, so a collision
  raises no error and leaves no diagnostic; for two subdirectories that each hold a
  file of one name, the snapshot is the single entry of the file in the second.
\<close>

theorem takeSnapshot_last_visited_wins:
  "snapshot_get (takeSnapshot sha1 quizesPath files) name =
     map_option (\<lambda>(filePathFull, content). calculateFileHash sha1 filePathFull content)
       (map_of (rev (visited quizesPath files)) name)
   \<and> takeSnapshot sha1 quizesPath
        [(dir1, Dir [(name, File content1)]), (dir2, Dir [(name, File content2)])]
       = [(name, calculateFileHash sha1 (path_join (path_join quizesPath dir2) name) content2)]"
proof
  show "snapshot_get (takeSnapshot sha1 quizesPath files) name =
     map_option (\<lambda>(filePathFull, content). calculateFileHash sha1 filePathFull content)
       (map_of (rev (visited quizesPath files)) name)"
    unfolding takeSnapshot_def takeSnapshot_files_get
    by (simp add: snapshot_get_def split: option.split)
  show "takeSnapshot sha1 quizesPath
        [(dir1, Dir [(name, File content1)]), (dir2, Dir [(name, File content2)])]
       = [(name, calculateFileHash sha1 (path_join (path_join quizesPath dir2) name) content2)]"
    by (simp add: takeSnapshot_def spread_def snapshot_set_def)
qed

section \<open>Fingerprints\<close>

text \<open>
  The paths of the files that \<open>takeSnapshot\<close> visits. The names of the entries of a
  directory are different from each other and hold no \<open>/\<close>. Every path handed to
  \<open>calculateFileHash\<close> is then the scanned directory, a \<open>/\<close>, and the names from
  there down to the file, and no two visited files have the same path.
\<close>

lemma wf_entries_names:
  assumes "wf_entries files" and "e \<in> fst ` set files"
  shows "CHR ''/'' \<notin> set e"
  using assms by (induction files rule: wf_entries.induct) auto

lemma visited_path_form:
  assumes "(name, filePathFull, content) \<in> set (visited quizesPath files)"
  shows "\<exists>e rest. e \<in> fst ` set files \<and> filePathFull = quizesPath @ ''/'' @ e @ rest
           \<and> (rest = [] \<or> hd rest = CHR ''/'')"
  using assms
proof (induction quizesPath files rule: visited.induct)
  case (1 quizesPath)
  then show ?case by simp
next
  case (2 quizesPath fname c files)
  show ?case
  proof (cases "(name, filePathFull, content) \<in> set (visited quizesPath files)")
    case True
    from "2.IH" [OF True] show ?thesis by auto
  next
    case False
    with "2.prems" have "filePathFull = quizesPath @ ''/'' @ fname @ []"
      by (simp add: path_join_def)
    then show ?thesis by (intro exI [of _ fname] exI [of _ "[]"]) simp
  qed
next
  case (3 quizesPath fname sub files)
  show ?case
  proof (cases "(name, filePathFull, content) \<in> set (visited quizesPath files)")
    case True
    from "3.IH"(2) [OF True] show ?thesis by auto
  next
    case False
    with "3.prems" have "(name, filePathFull, content) \<in> set (visited (path_join quizesPath fname) sub)"
      by simp
    from "3.IH"(1) [OF this] obtain e rest where
      "filePathFull = path_join quizesPath fname @ ''/'' @ e @ rest"
      by auto
    then have "filePathFull = quizesPath @ ''/'' @ fname @ (''/'' @ e @ rest)"
      by (simp add: path_join_def)
    then show ?thesis
      by (intro exI [of _ fname] exI [of _ "''/'' @ e @ rest"]) simp
  qed
qed

lemma first_component:
  assumes "e @ rest = e' @ rest'"
    and "CHR ''/'' \<notin> set e" and "CHR ''/'' \<notin> set e'"
    and "rest = [] \<or> hd rest = CHR ''/''" and "rest' = [] \<or> hd rest' = CHR ''/''"
  shows "e = e'"
proof -
  have tw: "takeWhile (\<lambda>x. x \<noteq> CHR ''/'') (a @ r) = a"
    if "CHR ''/'' \<notin> set a" and "r = [] \<or> hd r = CHR ''/''" for a r
    using that
  proof (induction a)
    case Nil
    then show ?case by (cases r) auto
  next
    case (Cons x xs)
    then show ?case by auto
  qed
  from tw [OF assms(2,4)] tw [OF assms(3,5)] assms(1) show ?thesis by simp
qed

lemma visited_paths_distinct:
  assumes "wf_entries files"
  shows "distinct (map (\<lambda>(name, filePathFull, content). filePathFull) (visited quizesPath files))"
  using assms
proof (induction quizesPath files rule: visited.induct)
  case (1 quizesPath)
  then show ?case by simp
next
  case (2 quizesPath fname c files)
  have "path_join quizesPath fname
      \<notin> (\<lambda>(name, filePathFull, content). filePathFull) ` set (visited quizesPath files)"
  proof
    assume "path_join quizesPath fname
      \<in> (\<lambda>(name, filePathFull, content). filePathFull) ` set (visited quizesPath files)"
    then obtain n c' where "(n, path_join quizesPath fname, c') \<in> set (visited quizesPath files)"
      by auto
    from visited_path_form [OF this] obtain e rest where e: "e \<in> fst ` set files"
      and eq: "path_join quizesPath fname = quizesPath @ ''/'' @ e @ rest"
      and rest: "rest = [] \<or> hd rest = CHR ''/''"
      by auto
    from eq have eq': "fname @ [] = e @ rest" by (simp add: path_join_def)
    from "2.prems" have slash: "CHR ''/'' \<notin> set fname" by simp
    from "2.prems" have "wf_entries files" by simp
    from wf_entries_names [OF this e] have slash': "CHR ''/'' \<notin> set e" .
    have "fname = e" by (rule first_component [OF eq' slash slash' _ rest]) simp
    with e "2.prems" show False by simp
  qed
  with "2.IH" "2.prems" show ?case by simp
next
  case (3 quizesPath fname sub files)
  have "(\<lambda>(name, filePathFull, content). filePathFull) ` set (visited (path_join quizesPath fname) sub)
      \<inter> (\<lambda>(name, filePathFull, content). filePathFull) ` set (visited quizesPath files) = {}"
  proof (rule ccontr)
    assume "\<not> ?thesis"
    then obtain p n1 c1 n2 c2 where
      in_sub: "(n1, p, c1) \<in> set (visited (path_join quizesPath fname) sub)"
      and in_files: "(n2, p, c2) \<in> set (visited quizesPath files)"
      by auto
    from visited_path_form [OF in_sub] obtain e1 r1 where
      "p = path_join quizesPath fname @ ''/'' @ e1 @ r1"
      by auto
    then have p1: "p = quizesPath @ ''/'' @ fname @ (''/'' @ e1 @ r1)"
      by (simp add: path_join_def)
    from visited_path_form [OF in_files] obtain e rest where e: "e \<in> fst ` set files"
      and p2: "p = quizesPath @ ''/'' @ e @ rest"
      and rest: "rest = [] \<or> hd rest = CHR ''/''"
      by auto
    from p1 p2 have eq': "fname @ (''/'' @ e1 @ r1) = e @ rest" by simp
    from "3.prems" have slash: "CHR ''/'' \<notin> set fname" by simp
    from "3.prems" have "wf_entries files" by simp
    from wf_entries_names [OF this e] have slash': "CHR ''/'' \<notin> set e" .
    have "fname = e" by (rule first_component [OF eq' slash slash' _ rest]) simp
    with e "3.prems" show False by simp
  qed
  with "3.IH" "3.prems" show ?case by simp
qed

text \<open>
  C6, as amended. The fingerprint of a visited file is the digest of its content
  followed by its full path: the path of the scanned directory joined with the names
  from there down to the file. Two different visited files have different full paths,
  so with the same content they have different fingerprints, as far as the digest tells
  the hashed inputs of the scan apart.
\<close>

theorem fingerprint_seeded_with_full_path:
  assumes "wf_entries files"
    and "inj_on sha1
           ((\<lambda>(name, filePathFull, content). content @ filePathFull)
              ` set (visited quizesPath files))"
    and "i < length (visited quizesPath files)" and "j < length (visited quizesPath files)"
    and "i \<noteq> j"
    and "visited quizesPath files ! i = (name1, filePath1, content)"
    and "visited quizesPath files ! j = (name2, filePath2, content)"
  shows "prefix (quizesPath @ ''/'') filePath1 \<and> prefix (quizesPath @ ''/'') filePath2
       \<and> filePath1 \<noteq> filePath2
       \<and> calculateFileHash sha1 filePath1 content = sha1 (content @ filePath1)
       \<and> calculateFileHash sha1 filePath2 content = sha1 (content @ filePath2)
       \<and> calculateFileHash sha1 filePath1 content \<noteq> calculateFileHash sha1 filePath2 content"
proof -
  let ?vs = "visited quizesPath files"
  let ?path = "\<lambda>(name, filePathFull, content). filePathFull"
  from assms(3,6) have in1: "(name1, filePath1, content) \<in> set ?vs" by (metis nth_mem)
  from assms(4,7) have in2: "(name2, filePath2, content) \<in> set ?vs" by (metis nth_mem)
  from visited_path_form [OF in1] have pre1: "prefix (quizesPath @ ''/'') filePath1"
    by (auto simp: prefix_def)
  from visited_path_form [OF in2] have pre2: "prefix (quizesPath @ ''/'') filePath2"
    by (auto simp: prefix_def)
  from visited_paths_distinct [OF assms(1)] have "distinct (map ?path ?vs)" .
  with assms(3,4,5) have "map ?path ?vs ! i \<noteq> map ?path ?vs ! j"
    using nth_eq_iff_index_eq [of "map ?path ?vs" i j] by (simp del: nth_map)
  with assms(3,4,6,7) have paths: "filePath1 \<noteq> filePath2" by simp
  have "sha1 (content @ filePath1) \<noteq> sha1 (content @ filePath2)"
  proof
    assume "sha1 (content @ filePath1) = sha1 (content @ filePath2)"
    moreover from in1 have "content @ filePath1
        \<in> (\<lambda>(name, filePathFull, content). content @ filePathFull) ` set ?vs"
      by force
    moreover from in2 have "content @ filePath2
        \<in> (\<lambda>(name, filePathFull, content). content @ filePathFull) ` set ?vs"
      by force
    ultimately have "content @ filePath1 = content @ filePath2"
      using assms(2) by (meson inj_onD)
    with paths show False by simp
  qed
  with pre1 pre2 paths show ?thesis by (simp add: calculateFileHash_def)
qed

theorem fingerprint_seeded_with_full_path_witness:
  "wf_entries [(''easy'', Dir [(''a.ts'', File ''same'')]), (''hard'', Dir [(''a.ts'', File ''same'')])]
   \<and> visited ''/repo/playground''
        [(''easy'', Dir [(''a.ts'', File ''same'')]), (''hard'', Dir [(''a.ts'', File ''same'')])]
       = [(''a.ts'', ''/repo/playground/easy/a.ts'', ''same''),
          (''a.ts'', ''/repo/playground/hard/a.ts'', ''same'')]
   \<and> inj_on (env_sha1 example_env)
        ((\<lambda>(name, filePathFull, content). content @ filePathFull)
           ` set (visited ''/repo/playground''
                   [(''easy'', Dir [(''a.ts'', File ''same'')]),
                    (''hard'', Dir [(''a.ts'', File ''same'')])]))
   \<and> calculateFileHash (env_sha1 example_env) ''/repo/playground/easy/a.ts'' ''same''
       \<noteq> calculateFileHash (env_sha1 example_env) ''/repo/playground/hard/a.ts'' ''same''"
proof -
  let ?files = "[(''easy'', Dir [(''a.ts'', File ''same'')]), (''hard'', Dir [(''a.ts'', File ''same'')])]"
  have wf: "wf_entries ?files" by simp
  have vs: "visited ''/repo/playground'' ?files
       = [(''a.ts'', ''/repo/playground/easy/a.ts'', ''same''),
          (''a.ts'', ''/repo/playground/hard/a.ts'', ''same'')]"
    by (simp add: path_join_def)
  have inj: "inj_on (env_sha1 example_env)
           ((\<lambda>(name, filePathFull, content). content @ filePathFull)
              ` set (visited ''/repo/playground'' ?files))"
    by (simp add: inj_on_def example_env_def)
  have l0: "0 < length (visited ''/repo/playground'' ?files)"
    and l1: "1 < length (visited ''/repo/playground'' ?files)"
    and n0: "visited ''/repo/playground'' ?files ! 0
               = (''a.ts'', ''/repo/playground/easy/a.ts'', ''same'')"
    and n1: "visited ''/repo/playground'' ?files ! 1
               = (''a.ts'', ''/repo/playground/hard/a.ts'', ''same'')"
    by (simp_all add: path_join_def)
  from fingerprint_seeded_with_full_path [OF wf inj l0 l1 zero_neq_one n0 n1]
  have "calculateFileHash (env_sha1 example_env) ''/repo/playground/easy/a.ts'' ''same''
       \<noteq> calculateFileHash (env_sha1 example_env) ''/repo/playground/hard/a.ts'' ''same''"
    by blast
  with wf vs inj show ?thesis by blast
qed

text \<open>
  The path is the full one and not the one relative to the playground. The same tree
  under two roots has the same relative paths and the same contents, and the
  fingerprints of its file differ.
\<close>

theorem fingerprint_relative_path_counterexample:
  "visited ''/a/playground'' [(''easy'', Dir [(''x.ts'', File ''content'')])]
     = [(''x.ts'', ''/a/playground/easy/x.ts'', ''content'')]
   \<and> visited ''/b/playground'' [(''easy'', Dir [(''x.ts'', File ''content'')])]
     = [(''x.ts'', ''/b/playground/easy/x.ts'', ''content'')]
   \<and> snapshot_get (takeSnapshot (env_sha1 example_env) ''/a/playground''
                      [(''easy'', Dir [(''x.ts'', File ''content'')])]) ''x.ts''
     = Some ''sha1:content/a/playground/easy/x.ts''
   \<and> snapshot_get (takeSnapshot (env_sha1 example_env) ''/b/playground''
                      [(''easy'', Dir [(''x.ts'', File ''content'')])]) ''x.ts''
     = Some ''sha1:content/b/playground/easy/x.ts''
   \<and> snapshot_get (takeSnapshot (env_sha1 example_env) ''/a/playground''
                      [(''easy'', Dir [(''x.ts'', File ''content'')])]) ''x.ts''
     \<noteq> snapshot_get (takeSnapshot (env_sha1 example_env) ''/b/playground''
                      [(''easy'', Dir [(''x.ts'', File ''content'')])]) ''x.ts''"
  by (simp add: takeSnapshot_def spread_def snapshot_set_def snapshot_get_def
      calculateFileHash_def path_join_def example_env_def)

section \<open>The cache\<close>

text \<open>
  C2. \<open>readPlaygroundCache\<close> returns the empty snapshot when the cache file does not
  exist. When the file exists and \<open>JSON.parse\<close> throws, it ends the process with exit
  code 1 and does not return the empty snapshot, and \<open>generatePlayground\<close> ends there,
  with the file system as it was.
\<close>

theorem readPlaygroundCache_fails_closed:
  "readPlaygroundCache JSON_parse None = Inr []
   \<and> (JSON_parse rawCacheContent = None \<longrightarrow>
        readPlaygroundCache JSON_parse (Some (File rawCacheContent)) = Inl (Exit 1))
   \<and> (env_JSON_parse env rawCacheContent = None
        \<and> playgroundcache w = Some (File rawCacheContent) \<longrightarrow>
        generatePlayground env argv ans loaded w = (Exit 1, w))"
  by (simp add: readPlaygroundCache_def generatePlayground_def)

theorem readPlaygroundCache_fails_closed_witness:
  "env_JSON_parse example_env ''{broken'' = None
   \<and> playgroundcache (example_world \<lparr> playgroundcache := Some (File ''{broken'') \<rparr>)
       = Some (File ''{broken'')
   \<and> readPlaygroundCache (env_JSON_parse example_env) (Some (File ''{broken'')) = Inl (Exit 1)
   \<and> generatePlayground example_env example_argv example_answers (Inr [example_quiz])
        (example_world \<lparr> playgroundcache := Some (File ''{broken'') \<rparr>)
       = (Exit 1, example_world \<lparr> playgroundcache := Some (File ''{broken'') \<rparr>)"
  using readPlaygroundCache_fails_closed
    [of "env_JSON_parse example_env" "''{broken''" example_env
        "example_world \<lparr> playgroundcache := Some (File ''{broken'') \<rparr>"
        example_argv example_answers "Inr [example_quiz]"]
  by (simp add: example_env_def)

section \<open>Which files are written\<close>

lemma takeSnapshot_digest:
  assumes "snapshot_get (takeSnapshot sha1 quizesPath files) key = Some h"
  shows "\<exists>x. h = sha1 x"
proof -
  from assms have "(case map_of (rev (visited quizesPath files)) key of
        None \<Rightarrow> snapshot_get [] key
      | Some (filePathFull, content) \<Rightarrow> Some (calculateFileHash sha1 filePathFull content))
      = Some h"
    by (simp add: takeSnapshot_def takeSnapshot_files_get)
  then show ?thesis
    by (auto simp: snapshot_get_def calculateFileHash_def split: option.splits)
qed

lemma overridable_fold:
  "snapshot_get
     (fold (\<lambda>quizName result.
             case snapshot_get snapshot quizName of
               None \<Rightarrow> result
             | Some h \<Rightarrow>
                 if Some h = snapshot_get cache quizName
                 then snapshot_set quizName h result
                 else result) names acc) key =
   (if key \<in> set names
    then (case snapshot_get snapshot key of
            None \<Rightarrow> snapshot_get acc key
          | Some h \<Rightarrow> if Some h = snapshot_get cache key then Some h else snapshot_get acc key)
    else snapshot_get acc key)"
proof (induction names arbitrary: acc)
  case Nil
  then show ?case by simp
next
  case (Cons a names)
  show ?case
    by (simp add: Cons.IH snapshot_get_set split: option.split)
qed

lemma calculateOverridableFiles_get:
  "snapshot_get (calculateOverridableFiles cache snapshot) key =
     (case snapshot_get snapshot key of
        None \<Rightarrow> None
      | Some h \<Rightarrow> if Some h = snapshot_get cache key then Some h else None)"
proof -
  have "key \<in> set (map fst snapshot) \<longleftrightarrow> snapshot_get snapshot key \<noteq> None"
    by (simp add: snapshot_get_def map_of_eq_None_iff)
  then show ?thesis
    unfolding calculateOverridableFiles_def overridable_fold
    by (auto simp: snapshot_get_def split: option.split)
qed

lemma isQuizWritable_iff:
  assumes "\<forall>x. sha1 x \<noteq> []"
  shows "isQuizWritable quizFileName
           (calculateOverridableFiles cache (takeSnapshot sha1 quizesPath files))
           (takeSnapshot sha1 quizesPath files)
         \<longleftrightarrow> snapshot_get (takeSnapshot sha1 quizesPath files) quizFileName = None
             \<or> snapshot_get (takeSnapshot sha1 quizesPath files) quizFileName
                 = snapshot_get cache quizFileName"
proof (cases "snapshot_get (takeSnapshot sha1 quizesPath files) quizFileName")
  case None
  then show ?thesis
    by (simp add: isQuizWritable_def calculateOverridableFiles_get truthy_entry_def)
next
  case (Some h)
  from takeSnapshot_digest [OF Some] assms have "h \<noteq> []" by auto
  with Some show ?thesis
    by (cases "snapshot_get cache quizFileName")
      (auto simp: isQuizWritable_def calculateOverridableFiles_get truthy_entry_def)
qed

lemma example_target:
  "quiz_target example_env ''en'' example_quiz = Inr (Some (''easy'', ''00001-easy-hello.ts''))"
  by (simp add: quiz_target_def example_env_def example_quiz_def resolveInfo_def Let_def
      Object_assign_def set_prop_def get_prop_def opt_get_def js_or_def)

lemma example_snapshot:
  "takeSnapshot (env_sha1 example_env) (env_playgroundPath example_env) example_files =
     [(''00001-easy-hello.ts'', ''sha1:type Hello = string/repo/playground/easy/00001-easy-hello.ts''),
      (''notes.txt'', ''sha1:my notes/repo/playground/notes.txt'')]"
  by (simp add: takeSnapshot_def example_env_def example_files_def spread_def snapshot_set_def
      calculateFileHash_def path_join_def)

text \<open>
  What the loop does with \<open>--keep-changes\<close>. A write that succeeds leaves the code
  of the quiz in the file of the quiz. For the file of a quiz, \<open>isQuizWritable\<close>
  holds if and only if the fingerprint in the snapshot of the playground equals the
  one in the cache or the snapshot has no entry for the file name; one turn of the
  loop writes the file in exactly that case, and otherwise leaves the playground and
  the incoming cache as they were. After a loop that went through, the names in the
  incoming cache are those of the files of the quizzes that \<open>isQuizWritable\<close> let
  through. A hexadecimal digest is never the empty string.
\<close>

lemma writeQuizFile_writes:
  assumes "writeQuizFile files d quizFileName code = Inr files'"
  shows "lookup_path (Dir files') [d, quizFileName] = Some (File code)"
  using assms
  by (auto simp: writeQuizFile_def Let_def update_conv'
      split: option.splits node.splits if_splits)

lemma generateQuiz_keep_changes:
  assumes "\<forall>x. env_sha1 env x \<noteq> []"
    and "playgroundSnapshot = takeSnapshot (env_sha1 env) (env_playgroundPath env) files"
    and "overridableFiles = calculateOverridableFiles cache playgroundSnapshot"
    and "quiz_target env locale quiz = Inr (Some (d, quizFileName))"
  shows "(isQuizWritable quizFileName overridableFiles playgroundSnapshot
           \<longleftrightarrow> snapshot_get playgroundSnapshot quizFileName = snapshot_get cache quizFileName
               \<or> snapshot_get playgroundSnapshot quizFileName = None)
       \<and> generateQuiz env True overridableFiles playgroundSnapshot locale quiz st =
           (if snapshot_get playgroundSnapshot quizFileName = snapshot_get cache quizFileName
               \<or> snapshot_get playgroundSnapshot quizFileName = None
            then (case writeQuizFile (fst st) d quizFileName (env_formatToCode env quiz locale) of
                    Inl e \<Rightarrow> Inl e
                  | Inr written \<Rightarrow>
                      Inr (written,
                           snapshot_set quizFileName
                             (calculateFileHash (env_sha1 env)
                                (path_join (path_join (env_playgroundPath env) d) quizFileName)
                                (env_formatToCode env quiz locale))
                             (snd st)))
            else Inr st)"
proof -
  have w: "isQuizWritable quizFileName overridableFiles playgroundSnapshot
           \<longleftrightarrow> snapshot_get playgroundSnapshot quizFileName = snapshot_get cache quizFileName
               \<or> snapshot_get playgroundSnapshot quizFileName = None"
    unfolding assms(2,3) isQuizWritable_iff [OF assms(1)] by auto
  show ?thesis
  proof (intro conjI)
    show "isQuizWritable quizFileName overridableFiles playgroundSnapshot
           \<longleftrightarrow> snapshot_get playgroundSnapshot quizFileName = snapshot_get cache quizFileName
               \<or> snapshot_get playgroundSnapshot quizFileName = None"
      by (rule w)
    show "generateQuiz env True overridableFiles playgroundSnapshot locale quiz st =
           (if snapshot_get playgroundSnapshot quizFileName = snapshot_get cache quizFileName
               \<or> snapshot_get playgroundSnapshot quizFileName = None
            then (case writeQuizFile (fst st) d quizFileName (env_formatToCode env quiz locale) of
                    Inl e \<Rightarrow> Inl e
                  | Inr written \<Rightarrow>
                      Inr (written,
                           snapshot_set quizFileName
                             (calculateFileHash (env_sha1 env)
                                (path_join (path_join (env_playgroundPath env) d) quizFileName)
                                (env_formatToCode env quiz locale))
                             (snd st)))
            else Inr st)"
      unfolding generateQuiz_def assms(4) using w by (simp add: Let_def)
  qed
qed


lemma generateQuiz_written:
  assumes "generateQuiz env True overridableFiles playgroundSnapshot locale quiz (files, cache)
             = Inr (files', cache')"
    and "quiz_target env locale quiz = Inr (Some (d, quizFileName))"
  shows "if isQuizWritable quizFileName overridableFiles playgroundSnapshot
         then lookup_path (Dir files') [d, quizFileName]
                = Some (File (env_formatToCode env quiz locale))
              \<and> cache' = snapshot_set quizFileName
                   (calculateFileHash (env_sha1 env)
                      (path_join (path_join (env_playgroundPath env) d) quizFileName)
                      (env_formatToCode env quiz locale)) cache
         else files' = files \<and> cache' = cache"
proof (cases "isQuizWritable quizFileName overridableFiles playgroundSnapshot")
  case False
  with assms show ?thesis by (simp add: generateQuiz_def Let_def)
next
  case True
  with assms obtain written where
    w: "writeQuizFile files d quizFileName (env_formatToCode env quiz locale) = Inr written"
    and "files' = written"
    and "cache' = snapshot_set quizFileName
           (calculateFileHash (env_sha1 env)
              (path_join (path_join (env_playgroundPath env) d) quizFileName)
              (env_formatToCode env quiz locale)) cache"
    by (auto simp: generateQuiz_def Let_def split: sum.splits)
  with writeQuizFile_writes [OF w] True show ?thesis by simp
qed

lemma generateQuizes_written:
  assumes "generateQuizes env True overridableFiles playgroundSnapshot locale quizes
             (files, cache) = (None, files', cache')"
  shows "snapshot_get cache' quizFileName \<noteq> None \<longleftrightarrow>
           snapshot_get cache quizFileName \<noteq> None
           \<or> (\<exists>quiz \<in> set quizes. \<exists>d.
                 quiz_target env locale quiz = Inr (Some (d, quizFileName))
                 \<and> isQuizWritable quizFileName overridableFiles playgroundSnapshot)"
  using assms
proof (induction quizes arbitrary: files cache)
  case Nil
  then show ?case by simp
next
  case (Cons quiz quizes)
  from Cons.prems obtain files1 cache1 where
    one: "generateQuiz env True overridableFiles playgroundSnapshot locale quiz (files, cache)
            = Inr (files1, cache1)"
    and rest: "generateQuizes env True overridableFiles playgroundSnapshot locale quizes
            (files1, cache1) = (None, files', cache')"
    by (auto split: sum.splits)
  have "snapshot_get cache1 quizFileName \<noteq> None \<longleftrightarrow>
          snapshot_get cache quizFileName \<noteq> None
          \<or> (\<exists>d. quiz_target env locale quiz = Inr (Some (d, quizFileName))
                \<and> isQuizWritable quizFileName overridableFiles playgroundSnapshot)"
  proof (cases "quiz_target env locale quiz")
    case (Inl e)
    with one show ?thesis by (simp add: generateQuiz_def Let_def)
  next
    case (Inr target)
    show ?thesis
    proof (cases target)
      case None
      with one Inr show ?thesis by (simp add: generateQuiz_def Let_def)
    next
      case (Some dn)
      obtain d n where dn: "dn = (d, n)" by (cases dn)
      from generateQuiz_written [OF one] Inr Some dn show ?thesis
        by (auto simp: snapshot_get_set split: if_splits)
    qed
  qed
  with Cons.IH [OF rest] show ?case by auto
qed

text \<open>
  C1. In a keep-changes run the file of a quiz is to be written if and only if it is
  unchanged since the run before or brand-new. The loop does so, and no run gets to
  the loop: \<open>loadQuizes\<close> is imported by name from \<open>./loader\<close>, which has a default
  export only, so the call after the snapshot throws and the promise is rejected. In a
  playground that holds a file of notes and nothing else, the file of the one quiz is
  brand-new and \<open>isQuizWritable\<close> holds for it; the run ends rejected with the
  playground as it was, and the file is not there. With the quizzes loaded, the same
  run writes it.
\<close>

theorem keep_changes_run_rejected_before_writing:
  "keep_changes_requested example_argv
   \<and> quiz_target example_env (choose_locale example_env example_argv example_answers)
        example_quiz = Inr (Some (''easy'', ''00001-easy-hello.ts''))
   \<and> snapshot_get
        (takeSnapshot (env_sha1 example_env) (env_playgroundPath example_env) example_new_files)
        ''00001-easy-hello.ts'' = None
   \<and> isQuizWritable ''00001-easy-hello.ts''
        (calculateOverridableFiles []
           (takeSnapshot (env_sha1 example_env) (env_playgroundPath example_env)
              example_new_files))
        (takeSnapshot (env_sha1 example_env) (env_playgroundPath example_env) example_new_files)
   \<and> generatePlayground example_env example_argv example_answers imported_loadQuizes
        example_new_world = (Rejected TypeError, example_new_world)
   \<and> lookup_path (Dir example_new_files) [''easy'', ''00001-easy-hello.ts''] = None
   \<and> generatePlayground example_env example_argv example_answers (Inr [example_quiz])
        example_new_world
       = (Generated,
          \<lparr> playground =
              Some (Dir [(''notes.txt'', File ''my notes''),
                         (''easy'', Dir [(''00001-easy-hello.ts'', File ''// en'')])]),
            playgroundcache =
              Some (File ''00001-easy-hello.ts=sha1:// en/repo/playground/easy/00001-easy-hello.ts;'') \<rparr>)"
proof -
  have keep: "keep_changes_requested example_argv"
    by (simp add: keep_changes_requested_def example_argv_def argv_at_def)
  have loc: "choose_locale example_env example_argv example_answers = ''en''"
    by (simp add: choose_locale_def example_env_def example_argv_def example_answers_def
        argv_at_def)
  have snap: "takeSnapshot (env_sha1 example_env) (env_playgroundPath example_env)
      example_new_files = [(''notes.txt'', ''sha1:my notes/repo/playground/notes.txt'')]"
    by (simp add: takeSnapshot_def example_env_def example_new_files_def spread_def
        snapshot_set_def calculateFileHash_def path_join_def)
  have cache: "readPlaygroundCache (env_JSON_parse example_env)
      (playgroundcache example_new_world) = Inr []"
    by (simp add: readPlaygroundCache_def example_env_def example_new_world_def)
  have ov: "calculateOverridableFiles [] [(''notes.txt'', ''sha1:my notes/repo/playground/notes.txt'')]
      = []"
    by (simp add: calculateOverridableFiles_def snapshot_get_def)
  have writable: "isQuizWritable ''00001-easy-hello.ts'' []
      [(''notes.txt'', ''sha1:my notes/repo/playground/notes.txt'')]"
    by (simp add: isQuizWritable_def snapshot_get_def truthy_entry_def)
  have dir: "readdirSync (playground example_new_world) = Inr example_new_files"
    by (simp add: readdirSync_def example_new_world_def)
  have rejected: "generatePlayground example_env example_argv example_answers
      imported_loadQuizes example_new_world = (Rejected TypeError, example_new_world)"
    by (simp add: generatePlayground_def cache keep dir imported_loadQuizes_def Let_def)
  have written: "writeQuizFile example_new_files ''easy'' ''00001-easy-hello.ts'' ''// en''
      = Inr [(''notes.txt'', File ''my notes''),
             (''easy'', Dir [(''00001-easy-hello.ts'', File ''// en'')])]"
    by (simp add: writeQuizFile_def example_new_files_def)
  have code: "env_formatToCode example_env example_quiz ''en'' = ''// en''"
    by (simp add: example_env_def)
  have turn: "generateQuiz example_env True []
      [(''notes.txt'', ''sha1:my notes/repo/playground/notes.txt'')] ''en'' example_quiz
      (example_new_files, [])
      = Inr ([(''notes.txt'', File ''my notes''),
              (''easy'', Dir [(''00001-easy-hello.ts'', File ''// en'')])],
             [(''00001-easy-hello.ts'', ''sha1:// en/repo/playground/easy/00001-easy-hello.ts'')])"
    by (simp add: generateQuiz_def example_target writable written code Let_def)
      (simp add: example_env_def snapshot_set_def calculateFileHash_def path_join_def)
  have generated: "generatePlayground example_env example_argv example_answers
      (Inr [example_quiz]) example_new_world
       = (Generated,
          \<lparr> playground =
              Some (Dir [(''notes.txt'', File ''my notes''),
                         (''easy'', Dir [(''00001-easy-hello.ts'', File ''// en'')])]),
            playgroundcache =
              Some (File ''00001-easy-hello.ts=sha1:// en/repo/playground/easy/00001-easy-hello.ts;'') \<rparr>)"
    by (simp add: generatePlayground_def cache keep dir Let_def snap ov loc generateFiles_def
        turn)
      (simp add: example_env_def example_new_world_def spread_def snapshot_set_def)
  have absent: "lookup_path (Dir example_new_files) [''easy'', ''00001-easy-hello.ts''] = None"
    by (simp add: example_new_files_def)
  from keep loc example_target snap ov writable rejected absent generated
  show ?thesis by (simp add: snapshot_get_def)
qed

section \<open>Files that are not written\<close>

lemma lookup_path_File:
  "lookup_path (File c) names = Some n \<longleftrightarrow> names = [] \<and> n = File c"
  by (cases names) auto

lemma writeQuizFile_frame:
  assumes "writeQuizFile files d quizFileName code = Inr files'"
    and "lookup_path (Dir files) names = Some (File content)"
  shows "\<exists>content'. lookup_path (Dir files') names = Some (File content')
           \<and> (content' = content \<or> names = [d, quizFileName])"
proof (cases names)
  case Nil
  with assms(2) show ?thesis by simp
next
  case (Cons x xs)
  show ?thesis
  proof (cases "x = d")
    case False
    from assms(1) obtain quizFiles where
      "files' = AList.update d (Dir (AList.update quizFileName (File code) quizFiles))
                  (if map_of files d = None then files @ [(d, Dir [])] else files)"
      by (auto simp: writeQuizFile_def Let_def split: option.splits node.splits if_splits)
    with False have "map_of files' x = map_of files x"
      by (auto simp: update_conv' map_add_def split: option.splits)
    with assms(2) Cons show ?thesis by simp
  next
    case True
    from assms(2) Cons True obtain m where m: "map_of files d = Some m"
      and look: "lookup_path m xs = Some (File content)"
      by (auto split: option.splits)
    from m assms(1) obtain quizFiles where dir: "m = Dir quizFiles"
      and not_dir: "\<forall>sub. map_of quizFiles quizFileName \<noteq> Some (Dir sub)"
      and files': "files' = AList.update d
          (Dir (AList.update quizFileName (File code) quizFiles)) files"
      by (auto simp: writeQuizFile_def Let_def split: option.splits node.splits)
    from files' have at_d: "map_of files' d
        = Some (Dir (AList.update quizFileName (File code) quizFiles))"
      by (simp add: update_conv')
    show ?thesis
    proof (cases xs)
      case Nil
      with look dir show ?thesis by simp
    next
      case inner: (Cons y ys)
      show ?thesis
      proof (cases "y = quizFileName")
        case False
        with look dir inner have "lookup_path (Dir (AList.update quizFileName (File code) quizFiles)) xs
            = Some (File content)"
          by (simp add: update_conv')
        with at_d Cons True show ?thesis by simp
      next
        case same: True
        from look dir inner same obtain k where k: "map_of quizFiles quizFileName = Some k"
          and deeper: "lookup_path k ys = Some (File content)"
          by (auto split: option.splits)
        from k not_dir obtain c where "k = File c" by (cases k) auto
        with deeper have "ys = []" by (simp add: lookup_path_File)
        with at_d Cons True inner same show ?thesis
          by (simp add: update_conv')
      qed
    qed
  qed
qed

lemma generateQuiz_frame:
  assumes "generateQuiz env keepChanges overridableFiles playgroundSnapshot locale quiz st
             = Inr st'"
    and "lookup_path (Dir (fst st)) names = Some (File content)"
  shows "\<exists>content'. lookup_path (Dir (fst st')) names = Some (File content')
           \<and> (content' = content
               \<or> (\<exists>d quizFileName. quiz_target env locale quiz = Inr (Some (d, quizFileName))
                     \<and> names = [d, quizFileName]
                     \<and> (keepChanges \<longrightarrow>
                          isQuizWritable quizFileName overridableFiles playgroundSnapshot)))"
proof (cases "quiz_target env locale quiz")
  case (Inl e)
  with assms(1) show ?thesis by (simp add: generateQuiz_def)
next
  case (Inr target)
  show ?thesis
  proof (cases target)
    case None
    with Inr assms show ?thesis by (simp add: generateQuiz_def)
  next
    case (Some dn)
    obtain d quizFileName where dn: "dn = (d, quizFileName)" by (cases dn)
    show ?thesis
    proof (cases "st' = st")
      case True
      with assms(2) show ?thesis by simp
    next
      case False
      with assms(1) Inr Some dn obtain files' where
        "writeQuizFile (fst st) d quizFileName (env_formatToCode env quiz locale) = Inr files'"
        and "fst st' = files'"
        and "keepChanges \<longrightarrow> isQuizWritable quizFileName overridableFiles playgroundSnapshot"
        by (auto simp: generateQuiz_def Let_def split: if_splits sum.splits)
      with writeQuizFile_frame [OF this(1) assms(2)] Inr Some dn show ?thesis by auto
    qed
  qed
qed

lemma generateQuizes_frame:
  assumes "generateQuizes env keepChanges overridableFiles playgroundSnapshot locale quizes st
             = (err, st')"
    and "lookup_path (Dir (fst st)) names = Some (File content)"
  shows "\<exists>content'. lookup_path (Dir (fst st')) names = Some (File content')
           \<and> (content' = content
               \<or> (\<exists>quiz \<in> set quizes. \<exists>d quizFileName.
                     quiz_target env locale quiz = Inr (Some (d, quizFileName))
                     \<and> names = [d, quizFileName]
                     \<and> (keepChanges \<longrightarrow>
                          isQuizWritable quizFileName overridableFiles playgroundSnapshot)))"
  using assms
proof (induction quizes arbitrary: st content)
  case Nil
  then show ?case by simp
next
  case (Cons quiz quizes)
  show ?case
  proof (cases "generateQuiz env keepChanges overridableFiles playgroundSnapshot locale quiz st")
    case (Inl e)
    with Cons.prems show ?thesis by simp
  next
    case (Inr st1)
    from generateQuiz_frame [OF Inr Cons.prems(2)] obtain content1 where
      one: "lookup_path (Dir (fst st1)) names = Some (File content1)"
      and "content1 = content
         \<or> (\<exists>d quizFileName. quiz_target env locale quiz = Inr (Some (d, quizFileName))
               \<and> names = [d, quizFileName]
               \<and> (keepChanges \<longrightarrow>
                    isQuizWritable quizFileName overridableFiles playgroundSnapshot))"
      by blast
    moreover from Cons.prems(1) Inr have
      "generateQuizes env keepChanges overridableFiles playgroundSnapshot locale quizes st1
         = (err, st')"
      by simp
    from Cons.IH [OF this one] obtain content' where
      "lookup_path (Dir (fst st')) names = Some (File content')"
      and "content' = content1
         \<or> (\<exists>quiz \<in> set quizes. \<exists>d quizFileName.
               quiz_target env locale quiz = Inr (Some (d, quizFileName))
               \<and> names = [d, quizFileName]
               \<and> (keepChanges \<longrightarrow>
                    isQuizWritable quizFileName overridableFiles playgroundSnapshot))"
      by blast
    ultimately show ?thesis by auto
  qed
qed

text \<open>
  C10. With \<open>--keep-changes\<close>, whatever the outcome of the run, every file that was in
  the playground is still there afterwards, and with the content it had unless it is
  the file of a quiz of this run that \<open>isQuizWritable\<close> let through. Files of quizzes
  that were skipped or that are no longer in the corpus are not such files, and a run
  that fails to load the quizzes has none. So the playground is removed only without
  \<open>--keep-changes\<close>.
\<close>

theorem keep_changes_never_deletes:
  assumes "keep_changes_requested argv"
    and "generatePlayground env argv ans loaded w = (out, w')"
    and "playground w = Some tree"
    and "lookup_path tree names = Some (File content)"
  shows "\<exists>tree' content'.
           playground w' = Some tree'
           \<and> lookup_path tree' names = Some (File content')
           \<and> (content' = content
               \<or> (\<exists>quizes. loaded = Inr quizes
                    \<and> (\<exists>quiz \<in> set quizes. \<exists>d quizFileName cache files.
                     quiz_target env (choose_locale env argv ans) quiz
                       = Inr (Some (d, quizFileName))
                     \<and> names = [d, quizFileName]
                     \<and> readPlaygroundCache (env_JSON_parse env) (playgroundcache w) = Inr cache
                     \<and> tree = Dir files
                     \<and> isQuizWritable quizFileName
                          (calculateOverridableFiles cache
                             (takeSnapshot (env_sha1 env) (env_playgroundPath env) files))
                          (takeSnapshot (env_sha1 env) (env_playgroundPath env) files))))"
proof (cases "readPlaygroundCache (env_JSON_parse env) (playgroundcache w)")
  case (Inl e)
  with assms show ?thesis by (auto simp: generatePlayground_def)
next
  case (Inr currentPlaygroundCache)
  show ?thesis
  proof (cases tree)
    case (File c)
    with assms Inr show ?thesis
      by (auto simp: generatePlayground_def readdirSync_def)
  next
    case (Dir files)
    show ?thesis
    proof (cases loaded)
      case (Inl e)
      with assms Inr Dir show ?thesis
        by (auto simp: generatePlayground_def readdirSync_def Let_def)
    next
      case loaded: (Inr quizes)
      define playgroundSnapshot where
        "playgroundSnapshot = takeSnapshot (env_sha1 env) (env_playgroundPath env) files"
      define overridableFiles where
        "overridableFiles = calculateOverridableFiles currentPlaygroundCache playgroundSnapshot"
      obtain err files' incoming where loop:
        "generateQuizes env True overridableFiles playgroundSnapshot
           (choose_locale env argv ans) quizes (files, []) = (err, files', incoming)"
        by (metis prod_cases3)
      from assms(4) Dir have "lookup_path (Dir (fst (files, []::Snapshot))) names = Some (File content)"
        by simp
      from generateQuizes_frame [OF loop this] obtain content' where
        frame: "lookup_path (Dir files') names = Some (File content')"
          "content' = content
           \<or> (\<exists>quiz \<in> set quizes. \<exists>d quizFileName.
                 quiz_target env (choose_locale env argv ans) quiz = Inr (Some (d, quizFileName))
                 \<and> names = [d, quizFileName]
                 \<and> isQuizWritable quizFileName overridableFiles playgroundSnapshot)"
        by auto
      from assms(1,2,3) Inr Dir loaded loop have "playground w' = Some (Dir files')"
        by (auto simp: generatePlayground_def readdirSync_def generateFiles_def Let_def
            playgroundSnapshot_def overridableFiles_def split: option.splits)
      with frame Inr Dir loaded show ?thesis
        unfolding playgroundSnapshot_def overridableFiles_def by blast
    qed
  qed
qed

theorem keep_changes_never_deletes_witness:
  "keep_changes_requested example_argv
   \<and> playground example_world = Some (Dir example_files)
   \<and> lookup_path (Dir example_files) [''notes.txt''] = Some (File ''my notes'')
   \<and> lookup_path (Dir example_files) [''easy'', ''00001-easy-hello.ts'']
       = Some (File ''type Hello = string'')
   \<and> (\<exists>tree'. playground (snd (generatePlayground example_env example_argv example_answers
                                  (Inr [example_quiz]) example_world)) = Some tree'
         \<and> lookup_path tree' [''notes.txt''] = Some (File ''my notes'')
         \<and> lookup_path tree' [''easy'', ''00001-easy-hello.ts'']
             = Some (File ''type Hello = string''))"
proof -
  have keep: "keep_changes_requested example_argv"
    by (simp add: keep_changes_requested_def example_argv_def argv_at_def)
  have pg: "playground example_world = Some (Dir example_files)"
    by (simp add: example_world_def)
  have notes_file: "lookup_path (Dir example_files) [''notes.txt''] = Some (File ''my notes'')"
    by (simp add: example_files_def)
  have answer: "lookup_path (Dir example_files) [''easy'', ''00001-easy-hello.ts'']
       = Some (File ''type Hello = string'')"
    by (simp add: example_files_def)
  have run: "generatePlayground example_env example_argv example_answers (Inr [example_quiz]) example_world
      = (fst (generatePlayground example_env example_argv example_answers (Inr [example_quiz])
                example_world),
         snd (generatePlayground example_env example_argv example_answers (Inr [example_quiz])
                example_world))"
    by simp
  have cache: "readPlaygroundCache (env_JSON_parse example_env) (playgroundcache example_world)
      = Inr []"
    by (simp add: readPlaygroundCache_def example_env_def example_world_def)
  have not_writable: "\<not> isQuizWritable ''00001-easy-hello.ts''
      (calculateOverridableFiles []
         (takeSnapshot (env_sha1 example_env) (env_playgroundPath example_env) example_files))
      (takeSnapshot (env_sha1 example_env) (env_playgroundPath example_env) example_files)"
    by (simp add: example_snapshot isQuizWritable_def calculateOverridableFiles_def
        snapshot_get_def truthy_entry_def)
  from keep_changes_never_deletes [OF keep run pg notes_file]
  obtain tree' where t: "playground (snd (generatePlayground example_env example_argv
      example_answers (Inr [example_quiz]) example_world)) = Some tree'"
    and n: "lookup_path tree' [''notes.txt''] = Some (File ''my notes'')"
    by auto
  from keep_changes_never_deletes [OF keep run pg answer] t cache not_writable
  have "lookup_path tree' [''easy'', ''00001-easy-hello.ts''] = Some (File ''type Hello = string'')"
    by auto
  with keep pg notes_file answer t n show ?thesis by blast
qed


end
